theory Spec2Isabelle
  imports Complex_Main "HOL-Library.Sublist"
begin

section \<open>JavaScript values used by the converter\<close>

text \<open>
  Strings are lists of bytes (the UTF-8 encoding of the JavaScript string). The format
  identifiers, the separators \<open>.\<close> and \<open>\n\<close> and the case mapping of the letters A-Z
  are ASCII, so they are the same bytes in every string that holds them; case mapping of
  letters outside ASCII is not modelled.
\<close>

datatype js_error = Error string | TypeError string

fun message :: "js_error \<Rightarrow> string" where
  "message (Error m) = m"
| "message (TypeError m) = m"

definition lower_table :: "(char \<times> char) list" where
  "lower_table = zip ''ABCDEFGHIJKLMNOPQRSTUVWXYZ'' ''abcdefghijklmnopqrstuvwxyz''"

definition upper_table :: "(char \<times> char) list" where
  "upper_table = zip ''abcdefghijklmnopqrstuvwxyz'' ''ABCDEFGHIJKLMNOPQRSTUVWXYZ''"

definition lower_char :: "char \<Rightarrow> char" where
  "lower_char c = (case map_of lower_table c of Some d \<Rightarrow> d | None \<Rightarrow> c)"

definition upper_char :: "char \<Rightarrow> char" where
  "upper_char c = (case map_of upper_table c of Some d \<Rightarrow> d | None \<Rightarrow> c)"

definition toLowerCase :: "string \<Rightarrow> string" where
  "toLowerCase s = map lower_char s"

definition toUpperCase :: "string \<Rightarrow> string" where
  "toUpperCase s = map upper_char s"

text \<open>
  \<open>s.split(sep)\<close> for a one-character separator: the pieces between the separators, in
  order. The result is never empty: \<open>"".split(".")\<close> is \<open>[""]\<close>.
\<close>

fun split :: "char \<Rightarrow> string \<Rightarrow> string list" where
  "split sep [] = [[]]"
| "split sep (c # cs) =
     (let pieces = split sep cs
      in if c = sep then [] # pieces else (c # hd pieces) # tl pieces)"

text \<open>\<open>xs.pop()\<close> as a value: the last element, \<open>undefined\<close> (None) on an empty array.\<close>

definition pop :: "'a list \<Rightarrow> 'a option" where
  "pop xs = (if xs = [] then None else Some (last xs))"

text \<open>
  Reading a property of an object literal. The literal's own entries come first; a key
  that is not among them is looked up on \<open>Object.prototype\<close>, whose properties are
  functions (or, for \<open>__proto__\<close>, the prototype object): truthy values that are not
  strings. Every other key reads as \<open>undefined\<close>.
\<close>

datatype js_value = JsUndefined | JsString string | JsObject

definition object_prototype_keys :: "string list" where
  "object_prototype_keys =
     [''constructor'', ''__proto__'', ''hasOwnProperty'', ''isPrototypeOf'',
      ''propertyIsEnumerable'', ''toLocaleString'', ''toString'', ''valueOf'',
      ''__defineGetter__'', ''__defineSetter__'', ''__lookupGetter__'',
      ''__lookupSetter__'']"

definition js_get :: "(string \<times> string) list \<Rightarrow> string \<Rightarrow> js_value" where
  "js_get obj k =
     (case map_of obj k of
        Some v \<Rightarrow> JsString v
      | None \<Rightarrow> if k \<in> set object_prototype_keys then JsObject else JsUndefined)"

fun truthy :: "js_value \<Rightarrow> bool" where
  "truthy JsUndefined = False"
| "truthy (JsString s) = (s \<noteq> [])"
| "truthy JsObject = True"

section \<open>Numbers: IEEE doubles\<close>

text \<open>
  A JavaScript number is an IEEE 754 double, a real number \<open>m * 2 ^ e\<close> with
  \<open>\<bar>m\<bar> < 2 ^ 53\<close>, and every arithmetic operation gives the exact result rounded to
  the nearest double, a tie going to the even significand. \<open>toDouble\<close> is that
  rounding: the number is scaled by powers of two, which is exact, until its magnitude
  lies between \<open>2 ^ 52\<close> and \<open>2 ^ 53\<close>, rounded to an integer there, and scaled back.
  The fuel reaches every normal double. Subnormal numbers and the overflow to
  \<open>Infinity\<close> are not modelled: a number that small or that large is left as it is.
  Page and image dimensions are far from both.
\<close>

definition roundEven :: "real \<Rightarrow> int" where
  "roundEven x =
     (let f = \<lfloor>x\<rfloor>; r = x - of_int f
      in if r < 1 / 2 then f
         else if 1 / 2 < r then f + 1
         else if even f then f else f + 1)"

fun scaleRound :: "nat \<Rightarrow> real \<Rightarrow> real" where
  "scaleRound 0 x = x"
| "scaleRound (Suc n) x =
     (if \<bar>x\<bar> < 2 ^ 52 then scaleRound n (2 * x) / 2
      else if 2 ^ 53 \<le> \<bar>x\<bar> then scaleRound n (x / 2) * 2
      else of_int (roundEven x))"

definition toDouble :: "real \<Rightarrow> real" where
  "toDouble x = (if x = 0 then 0 else scaleRound 1100 x)"

definition fadd :: "real \<Rightarrow> real \<Rightarrow> real" where
  "fadd a b = toDouble (a + b)"

definition fsub :: "real \<Rightarrow> real \<Rightarrow> real" where
  "fsub a b = toDouble (a - b)"

definition fmul :: "real \<Rightarrow> real \<Rightarrow> real" where
  "fmul a b = toDouble (a * b)"

definition fdiv :: "real \<Rightarrow> real \<Rightarrow> real" where
  "fdiv a b = toDouble (a / b)"

section \<open>Format classifier (src/components/file-converter.tsx)\<close>

text \<open>
  The two tables \<open>supportedFormats\<close> and \<open>formatCategories\<close>, in source order;
  \<open>supportedFormats.image\<close> is written \<open>supportedFormats_image\<close>, and so on.
\<close>

definition supportedFormats_document :: "string list" where
  "supportedFormats_document = [''pdf'', ''docx'', ''doc'', ''txt'', ''rtf'']"

definition supportedFormats_presentation :: "string list" where
  "supportedFormats_presentation = [''pptx'', ''ppt'', ''odp'']"

definition supportedFormats_image :: "string list" where
  "supportedFormats_image = [''jpg'', ''jpeg'', ''png'', ''gif'', ''bmp'', ''webp'', ''svg'']"

definition supportedFormats_other :: "string list" where
  "supportedFormats_other = [''csv'', ''xlsx'', ''xls'']"

definition supportedFormats :: "(string \<times> string list) list" where
  "supportedFormats =
     [(''document'', supportedFormats_document),
      (''presentation'', supportedFormats_presentation),
      (''image'', supportedFormats_image),
      (''other'', supportedFormats_other)]"

definition formatCategories :: "(string \<times> string) list" where
  "formatCategories =
     [(''pdf'', ''document''), (''docx'', ''document''), (''doc'', ''document''),
      (''txt'', ''document''), (''rtf'', ''document''),
      (''pptx'', ''presentation''), (''ppt'', ''presentation''), (''odp'', ''presentation''),
      (''jpg'', ''image''), (''jpeg'', ''image''), (''png'', ''image''), (''gif'', ''image''),
      (''bmp'', ''image''), (''webp'', ''image''), (''svg'', ''image''),
      (''csv'', ''other''), (''xlsx'', ''other''), (''xls'', ''other'')]"

text \<open>
  \<open>getFileExtension\<close>: \<open>filename.split(".").pop()?.toLowerCase() || ""\<close>. The optional
  chaining passes \<open>undefined\<close> on; \<open>||\<close> replaces \<open>undefined\<close> and the empty string by
  the empty string.
\<close>

definition getFileExtension :: "string \<Rightarrow> string" where
  "getFileExtension filename =
     (case map_option toLowerCase (pop (split CHR ''.'' filename)) of
        None \<Rightarrow> ''''
      | Some e \<Rightarrow> if e = [] then '''' else e)"

text \<open>
  The body of \<open>getAvailableOutputFormats\<close> after the input format is known (lines
  92-123). In the last branch \<open>supportedFormats[inputCategory]\<close> is read with whatever
  \<open>formatCategories[inputFormat]\<close> gave; when that read is \<open>undefined\<close>, calling
  \<open>.filter\<close> on it throws a TypeError.
\<close>

definition filterOfUndefined :: js_error where
  "filterOfUndefined =
     TypeError (''Cannot read properties of undefined (reading '' @ [CHR 0x27] @
                ''filter'' @ [CHR 0x27] @ '')'')"

definition availableOutputs :: "string \<Rightarrow> js_error + string list" where
  "availableOutputs inputFormat =
     (let inputCategory = js_get formatCategories inputFormat in
      if \<not> truthy inputCategory then Inr []
      else if inputCategory = JsString ''image'' then
        Inr (filter (\<lambda>format. format \<noteq> inputFormat) supportedFormats_image @ [''pdf''])
      else if inputFormat = ''pdf'' then
        Inr (supportedFormats_image @
             filter (\<lambda>format. format \<noteq> ''pdf'') supportedFormats_document)
      else if inputCategory = JsString ''document'' then
        Inr (filter (\<lambda>format. format \<noteq> inputFormat) supportedFormats_document @ [''pdf''])
      else
        (case inputCategory of
           JsString cat \<Rightarrow>
             (case map_of supportedFormats cat of
                Some fs \<Rightarrow> Inr (filter (\<lambda>format. format \<noteq> inputFormat) fs)
              | None \<Rightarrow> Inl filterOfUndefined)
         | _ \<Rightarrow> Inl filterOfUndefined))"

text \<open>\<open>getAvailableOutputFormats\<close> over the component's list of file names.\<close>

definition getAvailableOutputFormats :: "string list \<Rightarrow> js_error + string list" where
  "getAvailableOutputFormats files =
     (if length files = 0 then Inr []
      else availableOutputs (getFileExtension (hd files)))"

section \<open>The libraries behind the server route\<close>

text \<open>
  The route calls sharp (image codec), pdf-lib (PDF writer), mammoth (DOCX text) and
  Node's Buffer. They are not part of the repository: each call the route makes is a
  field of the record \<open>lib\<close>, a function of the call's arguments that gives the value
  returned or the error thrown. Nothing is assumed about these functions.
\<close>

datatype buffer = Buffer (bytes: string)

record metadata =
  md_width :: "nat option"
  md_height :: "nat option"
  md_format :: "string option"

text \<open>
  A sharp pipeline is its input (a buffer to decode, or \<open>create\<close> with width, height,
  channels and background colour) and its output encoder (\<open>.jpeg({quality})\<close>,
  \<open>.png()\<close>, \<open>.webp({quality})\<close>).
\<close>

datatype sharp_input = FromBuffer buffer | Create nat nat nat "nat \<times> nat \<times> nat"

datatype sharp_encoder = Jpeg nat | Png | Webp nat

text \<open>
  A PDF document under construction: its pages in order, each with its size and the
  drawing operations made on it.
\<close>

datatype pdf_image = EmbeddedJpg buffer | EmbeddedPng buffer

datatype draw_op =
    DrawText string real real real
  | DrawImage pdf_image real real real real

record pdf_page =
  page_size :: "real \<times> real"
  ops :: "draw_op list"

type_synonym pdf_doc = "pdf_page list"

record lib =
  sharp_toBuffer :: "sharp_input \<Rightarrow> sharp_encoder \<Rightarrow> js_error + buffer"
  sharp_metadata :: "buffer \<Rightarrow> js_error + metadata"
  mammoth_extractRawText :: "buffer \<Rightarrow> js_error + string"
  embedJpg_throws :: "buffer \<Rightarrow> js_error option"
  embedPng_throws :: "buffer \<Rightarrow> js_error option"
  drawText_throws :: "string \<Rightarrow> js_error option"
  pdf_save :: "pdf_doc \<Rightarrow> buffer"
  toString_utf8 :: "buffer \<Rightarrow> string"
  from_utf8 :: "string \<Rightarrow> buffer"

text \<open>
  \<open>pdfDoc.addPage([w, h])\<close> appends a page and returns it; the page is named by its
  index. Drawing on a page appends to its operations; the index is always that of a
  page \<open>addPage\<close> returned, so it is in range.
\<close>

definition addPage :: "pdf_doc \<Rightarrow> real \<times> real \<Rightarrow> pdf_doc \<times> nat" where
  "addPage doc sz = (doc @ [\<lparr>page_size = sz, ops = []\<rparr>], length doc)"

definition draw :: "pdf_doc \<Rightarrow> nat \<Rightarrow> draw_op \<Rightarrow> pdf_doc" where
  "draw doc i operation = doc[i := (doc ! i)\<lparr>ops := ops (doc ! i) @ [operation]\<rparr>]"

definition drawText :: "lib \<Rightarrow> pdf_doc \<Rightarrow> nat \<Rightarrow> string \<Rightarrow> real \<Rightarrow> real \<Rightarrow> real \<Rightarrow> js_error + pdf_doc" where
  "drawText L doc i txt x y sz =
     (case drawText_throws L txt of
        Some e \<Rightarrow> Inl e
      | None \<Rightarrow> Inr (draw doc i (DrawText txt x y sz)))"

definition embedJpg :: "lib \<Rightarrow> buffer \<Rightarrow> js_error + pdf_image" where
  "embedJpg L b = (case embedJpg_throws L b of Some e \<Rightarrow> Inl e | None \<Rightarrow> Inr (EmbeddedJpg b))"

definition embedPng :: "lib \<Rightarrow> buffer \<Rightarrow> js_error + pdf_image" where
  "embedPng L b = (case embedPng_throws L b of Some e \<Rightarrow> Inl e | None \<Rightarrow> Inr (EmbeddedPng b))"

section \<open>Pipelines of the server route (src/app/api/convert/route.ts)\<close>

subsection \<open>convertPdfToImage and convertImageToImage\<close>

text \<open>
  \<open>convertPdfToImage\<close> builds a 595 by 842 image with three channels and a white
  background, encodes it as PNG and re-encodes that; \<open>pdfBuffer\<close> is not read. Any
  error is replaced by the one of the \<open>catch\<close> block.
\<close>

definition convertPdfToImage :: "lib \<Rightarrow> buffer \<Rightarrow> string \<Rightarrow> js_error + buffer" where
  "convertPdfToImage L pdfBuffer outputFormat =
     (case (case sharp_toBuffer L (Create 595 842 3 (255, 255, 255)) Png of
              Inl e \<Rightarrow> Inl e
            | Inr imageBuffer \<Rightarrow>
                if outputFormat = ''jpg'' \<or> outputFormat = ''jpeg'' then
                  sharp_toBuffer L (FromBuffer imageBuffer) (Jpeg 90)
                else if outputFormat = ''png'' then
                  sharp_toBuffer L (FromBuffer imageBuffer) Png
                else sharp_toBuffer L (FromBuffer imageBuffer) Png) of
        Inl e \<Rightarrow> Inl (Error ''PDF to image conversion failed'')
      | Inr converted \<Rightarrow> Inr converted)"

definition convertImageToImage :: "lib \<Rightarrow> buffer \<Rightarrow> string \<Rightarrow> js_error + buffer" where
  "convertImageToImage L imageBuffer outputFormat =
     (if outputFormat = ''jpg'' \<or> outputFormat = ''jpeg'' then
        sharp_toBuffer L (FromBuffer imageBuffer) (Jpeg 90)
      else if outputFormat = ''png'' then sharp_toBuffer L (FromBuffer imageBuffer) Png
      else if outputFormat = ''webp'' then sharp_toBuffer L (FromBuffer imageBuffer) (Webp 90)
      else Inl (Error (''Unsupported output format: '' @ outputFormat)))"

subsection \<open>convertImageToPdf\<close>

definition maxWidth :: real where
  "maxWidth = 595"

definition maxHeight :: real where
  "maxHeight = 842"

text \<open>
  Lines 129-130: \<open>metadata.width || maxWidth\<close> is \<open>maxWidth\<close> when the width is
  \<open>undefined\<close> or 0, and likewise for the height. A pixel count is an integer that a
  double holds exactly.
\<close>

definition naturalWidth :: "metadata \<Rightarrow> real" where
  "naturalWidth md =
     (case md_width md of None \<Rightarrow> maxWidth | Some w \<Rightarrow> if w = 0 then maxWidth else real w)"

definition naturalHeight :: "metadata \<Rightarrow> real" where
  "naturalHeight md =
     (case md_height md of None \<Rightarrow> maxHeight | Some h \<Rightarrow> if h = 0 then maxHeight else real h)"

text \<open>
  Lines 129-137: the size the image is drawn at, computed in doubles. \<open>Math.min\<close> is
  exact. The width and height are at least 1, so nothing is divided by zero.
\<close>

definition drawnSize :: "metadata \<Rightarrow> real \<times> real" where
  "drawnSize md =
     (let width = naturalWidth md;
          height = naturalHeight md
      in if width > maxWidth \<or> height > maxHeight then
           (let scale = min (fdiv maxWidth width) (fdiv maxHeight height)
            in (fmul width scale, fmul height scale))
         else (width, height))"

text \<open>
  Lines 142-155: the image is embedded as it is when sharp reports JPEG or PNG, and
  after a conversion to PNG otherwise.
\<close>

definition embedImage :: "lib \<Rightarrow> buffer \<Rightarrow> string option \<Rightarrow> js_error + pdf_image" where
  "embedImage L imageBuffer format =
     (if format = Some ''jpeg'' \<or> format = Some ''jpg'' then embedJpg L imageBuffer
      else if format = Some ''png'' then embedPng L imageBuffer
      else (case sharp_toBuffer L (FromBuffer imageBuffer) Png of
              Inl e \<Rightarrow> Inl e
            | Inr pngBuffer \<Rightarrow> embedPng L pngBuffer))"

text \<open>
  Lines 117 and 125-163: the document \<open>convertImageToPdf\<close> builds once the metadata is
  read. One page is added, of the drawn size; the image is embedded and drawn at (0, 0)
  with the drawn size.
\<close>

definition embedImagePage :: "lib \<Rightarrow> buffer \<Rightarrow> metadata \<Rightarrow> js_error + pdf_doc" where
  "embedImagePage L imageBuffer md =
     (let (width, height) = drawnSize md;
          (pdfDoc, page) = addPage [] (width, height)
      in case embedImage L imageBuffer (md_format md) of
           Inl e \<Rightarrow> Inl e
         | Inr pdfImage \<Rightarrow> Inr (draw pdfDoc page (DrawImage pdfImage 0 0 width height)))"

definition convertImageToPdf :: "lib \<Rightarrow> buffer \<Rightarrow> js_error + buffer" where
  "convertImageToPdf L imageBuffer =
     (case sharp_metadata L imageBuffer of
        Inl e \<Rightarrow> Inl e
      | Inr md \<Rightarrow>
          (case embedImagePage L imageBuffer md of
             Inl e \<Rightarrow> Inl e
           | Inr pdfDoc \<Rightarrow> Inr (pdf_save L pdfDoc)))"

subsection \<open>convertTxtToPdf, convertDocxToPdf and convertDocxToTxt\<close>

text \<open>
  The constants of lines 206-210. The literal \<open>1.2\<close> is the double nearest to 1.2, and
  the product is rounded again: \<open>lineHeight\<close> is the double the source computes, a
  little below 14.4.
\<close>

definition fontSize :: real where
  "fontSize = 12"

definition lineHeight :: real where
  "lineHeight = fmul fontSize (toDouble 1.2)"

definition margin :: real where
  "margin = 50"

definition pageWidth :: real where
  "pageWidth = 595"

definition pageHeight :: real where
  "pageHeight = 842"

text \<open>The variables the loop of lines 219-234 updates.\<close>

record layout =
  pdfDoc :: pdf_doc
  currentPage :: nat
  yPosition :: real

text \<open>
  One turn of the loop: a new page when the cursor is below \<open>margin + lineHeight\<close>, the
  line drawn (\<open>line || " "\<close>: a space for the empty line), the cursor moved down.
\<close>

definition drawLine :: "lib \<Rightarrow> string \<Rightarrow> layout \<Rightarrow> js_error + layout" where
  "drawLine L line st =
     (let st1 = (if yPosition st < fadd margin lineHeight then
                   (let (d, p) = addPage (pdfDoc st) (pageWidth, pageHeight)
                    in st\<lparr>pdfDoc := d, currentPage := p,
                          yPosition := fsub pageHeight margin\<rparr>)
                 else st)
      in case drawText L (pdfDoc st1) (currentPage st1) (if line = [] then '' '' else line)
                margin (yPosition st1) fontSize of
           Inl e \<Rightarrow> Inl e
         | Inr d \<Rightarrow> Inr (st1\<lparr>pdfDoc := d, yPosition := fsub (yPosition st1) lineHeight\<rparr>))"

fun drawLines :: "lib \<Rightarrow> string list \<Rightarrow> layout \<Rightarrow> js_error + layout" where
  "drawLines L [] st = Inr st"
| "drawLines L (line # rest) st =
     (case drawLine L line st of
        Inl e \<Rightarrow> Inl e
      | Inr st' \<Rightarrow> drawLines L rest st')"

text \<open>Lines 204-234: the document laid out from the text, before it is saved.\<close>

definition layoutText :: "lib \<Rightarrow> string \<Rightarrow> js_error + pdf_doc" where
  "layoutText L txt =
     (let (d, p) = addPage [] (pageWidth, pageHeight);
          lines = split (CHR 0x0A) txt
      in case drawLines L lines
                \<lparr>pdfDoc = d, currentPage = p, yPosition = fsub pageHeight margin\<rparr> of
           Inl e \<Rightarrow> Inl e
         | Inr st \<Rightarrow> Inr (pdfDoc st))"

definition convertTxtToPdf :: "lib \<Rightarrow> buffer \<Rightarrow> js_error + buffer" where
  "convertTxtToPdf L txtBuffer =
     (case layoutText L (toString_utf8 L txtBuffer) of
        Inl e \<Rightarrow> Inl (Error ''Text to PDF conversion failed'')
      | Inr d \<Rightarrow> Inr (pdf_save L d))"

definition convertDocxToPdf :: "lib \<Rightarrow> buffer \<Rightarrow> js_error + buffer" where
  "convertDocxToPdf L docxBuffer =
     (case mammoth_extractRawText L docxBuffer of
        Inl e \<Rightarrow> Inl e
      | Inr txt \<Rightarrow> convertTxtToPdf L (from_utf8 L txt))"

definition convertDocxToTxt :: "lib \<Rightarrow> buffer \<Rightarrow> js_error + buffer" where
  "convertDocxToTxt L docxBuffer =
     (case mammoth_extractRawText L docxBuffer of
        Inl e \<Rightarrow> Inl e
      | Inr txt \<Rightarrow> Inr (from_utf8 L txt))"

subsection \<open>POST\<close>

record upload =
  file_name :: string
  file_data :: buffer

text \<open>
  A response is a JSON error body with its status, or the converted bytes with the
  \<open>Content-Type\<close> and \<open>Content-Disposition\<close> headers (status 200).
\<close>

datatype response = Json nat string | Download buffer string string

fun status :: "response \<Rightarrow> nat" where
  "status (Json code msg) = code"
| "status (Download body contentType disposition) = 200"

text \<open>The branches of the chain of lines 28-67 that call a converter, in source order.\<close>

datatype pipeline = PdfToImage | ImageToPdf | ImageToImage | DocxToPdf | DocxToTxt | TxtToPdf

text \<open>\<open>list.includes(x)\<close> where \<open>x\<close> may be \<open>undefined\<close>.\<close>

definition arrayIncludes :: "string list \<Rightarrow> string option \<Rightarrow> bool" where
  "arrayIncludes xs v = (case v of None \<Rightarrow> False | Some x \<Rightarrow> x \<in> set xs)"

definition selectPipeline :: "string option \<Rightarrow> string \<Rightarrow> pipeline option" where
  "selectPipeline inputFormat outputFormat =
     (if inputFormat = Some ''pdf'' \<and> outputFormat \<in> set [''jpg'', ''jpeg'', ''png''] then
        Some PdfToImage
      else if arrayIncludes [''jpg'', ''jpeg'', ''png'', ''gif'', ''webp''] inputFormat \<and>
              outputFormat = ''pdf'' then
        Some ImageToPdf
      else if arrayIncludes [''jpg'', ''jpeg'', ''png'', ''gif'', ''webp'', ''bmp''] inputFormat \<and>
              outputFormat \<in> set [''jpg'', ''jpeg'', ''png'', ''webp''] then
        Some ImageToImage
      else if inputFormat = Some ''docx'' \<and> outputFormat = ''pdf'' then Some DocxToPdf
      else if inputFormat = Some ''docx'' \<and> outputFormat = ''txt'' then Some DocxToTxt
      else if inputFormat = Some ''txt'' \<and> outputFormat = ''pdf'' then Some TxtToPdf
      else None)"

fun runPipeline :: "lib \<Rightarrow> pipeline \<Rightarrow> buffer \<Rightarrow> string \<Rightarrow> js_error + buffer" where
  "runPipeline L PdfToImage b outputFormat = convertPdfToImage L b outputFormat"
| "runPipeline L ImageToPdf b outputFormat = convertImageToPdf L b"
| "runPipeline L ImageToImage b outputFormat = convertImageToImage L b outputFormat"
| "runPipeline L DocxToPdf b outputFormat = convertDocxToPdf L b"
| "runPipeline L DocxToTxt b outputFormat = convertDocxToTxt L b"
| "runPipeline L TxtToPdf b outputFormat = convertTxtToPdf L b"

definition imageMime :: "string \<Rightarrow> string" where
  "imageMime outputFormat =
     ''image/'' @ (if outputFormat = ''jpg'' then ''jpeg'' else outputFormat)"

fun mimeType :: "pipeline \<Rightarrow> string \<Rightarrow> string" where
  "mimeType PdfToImage outputFormat = imageMime outputFormat"
| "mimeType ImageToPdf outputFormat = ''application/pdf''"
| "mimeType ImageToImage outputFormat = imageMime outputFormat"
| "mimeType DocxToPdf outputFormat = ''application/pdf''"
| "mimeType DocxToTxt outputFormat = ''text/plain''"
| "mimeType TxtToPdf outputFormat = ''application/pdf''"

text \<open>\<open>file.name.split(".")[0]\<close> followed by the extension each branch writes.\<close>

fun filename :: "pipeline \<Rightarrow> string \<Rightarrow> string \<Rightarrow> string" where
  "filename PdfToImage fileName outputFormat =
     hd (split CHR ''.'' fileName) @ ''.'' @ outputFormat"
| "filename ImageToPdf fileName outputFormat = hd (split CHR ''.'' fileName) @ ''.pdf''"
| "filename ImageToImage fileName outputFormat =
     hd (split CHR ''.'' fileName) @ ''.'' @ outputFormat"
| "filename DocxToPdf fileName outputFormat = hd (split CHR ''.'' fileName) @ ''.pdf''"
| "filename DocxToTxt fileName outputFormat = hd (split CHR ''.'' fileName) @ ''.txt''"
| "filename TxtToPdf fileName outputFormat = hd (split CHR ''.'' fileName) @ ''.pdf''"

text \<open>
  The message of the last branch. The two arrows of the source text are written as
  their UTF-8 bytes; \<open>inputFormat?.toUpperCase()\<close> prints \<open>undefined\<close> as such.
\<close>

definition leftRightArrow :: string where
  "leftRightArrow = [CHR 0xE2, CHR 0x86, CHR 0x94]"

definition rightArrow :: string where
  "rightArrow = [CHR 0xE2, CHR 0x86, CHR 0x92]"

definition unsupportedMessage :: "string option \<Rightarrow> string \<Rightarrow> string" where
  "unsupportedMessage inputFormat outputFormat =
     ''Conversion from '' @
     (case inputFormat of None \<Rightarrow> ''undefined'' | Some i \<Rightarrow> toUpperCase i) @
     '' to '' @ toUpperCase outputFormat @
     '' is not supported yet. Currently supported: Image '' @ leftRightArrow @
     '' Image, Image '' @ leftRightArrow @ '' PDF, DOCX '' @ rightArrow @
     '' PDF/TXT, TXT '' @ rightArrow @ '' PDF''"

text \<open>Line 19: \<open>file.name.split(".").pop()?.toLowerCase()\<close>.\<close>

definition inputFormatOf :: "upload \<Rightarrow> string option" where
  "inputFormatOf file = map_option toLowerCase (pop (split CHR ''.'' (file_name file)))"

text \<open>
  Lines 18-77, the dispatcher: the request has a file and an output format. The result
  is the response returned, or the error a converter threw.
\<close>

definition dispatch :: "lib \<Rightarrow> upload \<Rightarrow> string \<Rightarrow> js_error + response" where
  "dispatch L file outputFormat =
     (let buffer = file_data file;
          inputFormat = inputFormatOf file
      in case selectPipeline inputFormat outputFormat of
           None \<Rightarrow> Inr (Json 400 (unsupportedMessage inputFormat outputFormat))
         | Some p \<Rightarrow>
             (case runPipeline L p buffer outputFormat of
                Inl e \<Rightarrow> Inl e
              | Inr convertedBuffer \<Rightarrow>
                  Inr (Download convertedBuffer (mimeType p outputFormat)
                         (''attachment; filename='' @ [CHR 0x22] @
                          filename p (file_name file) outputFormat @ [CHR 0x22]))))"

text \<open>
  \<open>POST\<close>: the two form fields may be missing (\<open>null\<close>). With no file, \<open>file.name\<close> of
  line 12 throws inside the \<open>try\<close>; an empty or missing output format is refused by the
  guard of line 14; every error thrown is answered by the \<open>catch\<close> of line 78.
\<close>

definition POST :: "lib \<Rightarrow> upload option \<Rightarrow> string option \<Rightarrow> response" where
  "POST L file outputFormat =
     (case (case file of
              None \<Rightarrow>
                Inl (TypeError (''Cannot read properties of null (reading '' @
                       [CHR 0x27] @ ''name'' @ [CHR 0x27] @ '')''))
            | Some f \<Rightarrow>
                (case outputFormat of
                   None \<Rightarrow> Inr (Json 400 ''Missing file or output format'')
                 | Some out \<Rightarrow>
                     if out = [] then Inr (Json 400 ''Missing file or output format'')
                     else dispatch L f out)) of
        Inl e \<Rightarrow> Json 500 (''Conversion failed: '' @ message e)
      | Inr r \<Rightarrow> r)"

section \<open>The dispatch table of the specification\<close>

text \<open>
  The table of supported pairs as the specification gives it, to compare the dispatcher
  with. Its \<open>image*\<close> rows are read as the raster formats the server names: jpg, jpeg,
  png, gif, webp and bmp.
\<close>

definition tableImageFormats :: "string list" where
  "tableImageFormats = [''jpg'', ''jpeg'', ''png'', ''gif'', ''webp'', ''bmp'']"

definition inDispatchTable :: "string \<Rightarrow> string \<Rightarrow> bool" where
  "inDispatchTable inputFormat outputFormat =
     (inputFormat \<in> set tableImageFormats \<and>
        outputFormat \<in> set [''jpg'', ''jpeg'', ''png'', ''webp'']
      \<or> inputFormat \<in> set tableImageFormats \<and> outputFormat = ''pdf''
      \<or> inputFormat = ''pdf'' \<and> outputFormat \<in> set [''jpg'', ''jpeg'', ''png'']
      \<or> inputFormat = ''docx'' \<and> outputFormat = ''pdf''
      \<or> inputFormat = ''docx'' \<and> outputFormat = ''txt''
      \<or> inputFormat = ''txt'' \<and> outputFormat = ''pdf'')"

section \<open>Client-side conversion (src/components/file-converter.tsx, handleConvert)\<close>

text \<open>
  What the loop body of \<open>handleConvert\<close> does with one file (lines 232-261): one of the
  two in-browser conversions, or a \<open>fetch\<close> of the server route \<open>/api/convert\<close>.
\<close>

datatype client_call =
    ConvertImageToPdf string
  | ConvertImageFormat string string
  | FetchApiConvert string string

definition convertFile :: "string \<Rightarrow> string \<Rightarrow> client_call" where
  "convertFile fileName outputFormat =
     (let inputFormat = getFileExtension fileName in
      if inputFormat = ''png'' \<or> inputFormat = ''jpg'' \<or> inputFormat = ''jpeg'' then
        (if outputFormat = ''pdf'' then ConvertImageToPdf fileName
         else ConvertImageFormat fileName outputFormat)
      else FetchApiConvert fileName outputFormat)"

fun is_fetch :: "client_call \<Rightarrow> bool" where
  "is_fetch (FetchApiConvert f out) = True"
| "is_fetch c = False"

text \<open>
  The browser and the network: what the two in-browser conversions (image decoding,
  canvas, jsPDF) resolve or reject with for a file, and what \<open>fetch\<close> gives for the
  request with a file and an output format: a response, or the error of a request that
  could not be made.
\<close>

record fetch_response =
  response_ok :: bool
  response_statusText :: string
  response_blob :: buffer

record browser =
  imageToPdf_in_browser :: "upload \<Rightarrow> js_error + buffer"
  imageFormat_in_browser :: "upload \<Rightarrow> string \<Rightarrow> js_error + buffer"
  fetch_api_convert :: "upload \<Rightarrow> string \<Rightarrow> js_error + fetch_response"

text \<open>
  Lines 236-261: the blob for one file. The call made is the one \<open>convertFile\<close> names
  for the file's name; a response that is not \<open>ok\<close> is turned into an error.
\<close>

definition convertedBlob :: "browser \<Rightarrow> upload \<Rightarrow> string \<Rightarrow> js_error + buffer" where
  "convertedBlob B file outputFormat =
     (case convertFile (file_name file) outputFormat of
        ConvertImageToPdf n \<Rightarrow> imageToPdf_in_browser B file
      | ConvertImageFormat n out \<Rightarrow> imageFormat_in_browser B file out
      | FetchApiConvert n out \<Rightarrow>
          (case fetch_api_convert B file out of
             Inl e \<Rightarrow> Inl e
           | Inr response \<Rightarrow>
               if \<not> response_ok response then
                 Inl (Error (''Server conversion failed: '' @ response_statusText response))
               else Inr (response_blob response)))"

text \<open>
  The state of the component that \<open>handleConvert\<close> changes: the downloads offered, each
  a file name with the blob behind its object URL, and the error shown. \<open>calls\<close> is not
  a variable of the source: it records the conversions called, in order.
\<close>

record conversions =
  convertedFiles :: "(string \<times> buffer) list"
  errorShown :: string
  calls :: "client_call list"

text \<open>Line 267: the name of the download, \<open>file.name.split(".")[0] + "." + outputFormat\<close>.\<close>

definition downloadName :: "upload \<Rightarrow> string \<Rightarrow> string" where
  "downloadName file outputFormat = hd (split CHR ''.'' (file_name file)) @ ''.'' @ outputFormat"

text \<open>
  The loop of lines 230-270 over the files, in order. A blob is appended to the
  downloads under its name; the first error ends the loop and is shown (line 273).
\<close>

fun convertEach :: "browser \<Rightarrow> upload list \<Rightarrow> string \<Rightarrow> conversions \<Rightarrow> conversions" where
  "convertEach B [] outputFormat s = s"
| "convertEach B (file # rest) outputFormat s =
     (let s1 = s\<lparr>calls := calls s @ [convertFile (file_name file) outputFormat]\<rparr>
      in case convertedBlob B file outputFormat of
           Inl e \<Rightarrow> s1\<lparr>errorShown := message e\<rparr>
         | Inr blob \<Rightarrow>
             convertEach B rest outputFormat
               (s1\<lparr>convertedFiles := convertedFiles s1 @
                    [(downloadName file outputFormat, blob)]\<rparr>))"

definition handleConvert :: "browser \<Rightarrow> upload list \<Rightarrow> string \<Rightarrow> conversions \<Rightarrow> conversions" where
  "handleConvert B files outputFormat s =
     (if length files = 0 \<or> outputFormat = [] then s
      else convertEach B files outputFormat (s\<lparr>errorShown := ''''\<rparr>))"

section \<open>The laid-out document of the specification\<close>

text \<open>
  What text reflow is to produce, to compare \<open>layoutText\<close> with: the lines in groups of
  51, one page of 595 by 842 for each group, and line \<open>j\<close> of a group (counted from 0)
  drawn at the left margin with font size 12 at the height \<open>cursorAt j\<close>, the value of
  the cursor after \<open>j\<close> steps down from \<open>pageHeight - margin\<close>. An empty line is drawn
  as a space.
\<close>

definition cursorAt :: "nat \<Rightarrow> real" where
  "cursorAt j = ((\<lambda>y. fsub y lineHeight) ^^ j) (fsub pageHeight margin)"

definition drawnLines :: "nat \<Rightarrow> string list \<Rightarrow> draw_op list" where
  "drawnLines j ls =
     map (\<lambda>(i, line). DrawText (if line = [] then '' '' else line) margin (cursorAt i) fontSize)
       (enumerate j ls)"

definition textPage :: "string list \<Rightarrow> pdf_page" where
  "textPage ls = \<lparr>page_size = (pageWidth, pageHeight), ops = drawnLines 0 ls\<rparr>"

fun pagesOfLines :: "string list \<Rightarrow> string list list" where
  "pagesOfLines ls =
     (if length ls \<le> 51 then [ls] else take 51 ls # pagesOfLines (drop 51 ls))"

declare pagesOfLines.simps [simp del]

definition textPages :: "string list \<Rightarrow> pdf_doc" where
  "textPages ls = map textPage (pagesOfLines ls)"

text \<open>The one-page document of an embedded image drawn with a width and a height.\<close>

definition imagePage :: "pdf_image \<Rightarrow> real \<Rightarrow> real \<Rightarrow> pdf_doc" where
  "imagePage img w h = [\<lparr>page_size = (w, h), ops = [DrawImage img 0 0 w h]\<rparr>]"

section \<open>Library and browser instances for concrete runs\<close>

text \<open>
  A stand-in for the libraries in which no call throws: every image has the metadata
  given, sharp returns a buffer naming the encoder, and a saved document is a buffer
  naming its number of pages.
\<close>

fun encoderName :: "sharp_encoder \<Rightarrow> string" where
  "encoderName (Jpeg q) = ''jpeg''"
| "encoderName Png = ''png''"
| "encoderName (Webp q) = ''webp''"

definition quietLib :: "metadata \<Rightarrow> lib" where
  "quietLib md =
     \<lparr>sharp_toBuffer = (\<lambda>input encoder. Inr (Buffer (encoderName encoder))),
      sharp_metadata = (\<lambda>b. Inr md),
      mammoth_extractRawText = (\<lambda>b. Inr (bytes b)),
      embedJpg_throws = (\<lambda>b. None),
      embedPng_throws = (\<lambda>b. None),
      drawText_throws = (\<lambda>t. None),
      pdf_save = (\<lambda>d. Buffer (replicate (length d) CHR ''P'')),
      toString_utf8 = bytes,
      from_utf8 = Buffer\<rparr>"

text \<open>Metadata of a 100 by 100 PNG, for concrete runs.\<close>

definition smallPng :: metadata where
  "smallPng = \<lparr>md_width = Some 100, md_height = Some 100, md_format = Some ''png''\<rparr>"

text \<open>The same library when sharp cannot read the image: \<open>metadata()\<close> throws.\<close>

definition brokenImageLib :: lib where
  "brokenImageLib =
     (quietLib smallPng)\<lparr>sharp_metadata :=
        (\<lambda>b. Inl (Error ''Input buffer contains unsupported image format''))\<rparr>"

text \<open>
  The same library when the standard font cannot encode every character, as pdf-lib's
  Helvetica cannot outside WinAnsi: \<open>drawText\<close> throws on a text that holds the byte
  0xE4, the first byte of U+4E2D and of its neighbours in UTF-8.
\<close>

definition winAnsiLib :: lib where
  "winAnsiLib =
     (quietLib smallPng)\<lparr>drawText_throws :=
        (\<lambda>t. if CHR 0xE4 \<in> set t then Some (Error ''WinAnsi cannot encode'') else None)\<rparr>"

text \<open>
  A browser in which every conversion succeeds: the in-browser conversions return a
  blob naming the conversion, and the server answers with a blob naming the output
  format.
\<close>

definition workingBrowser :: browser where
  "workingBrowser =
     \<lparr>imageToPdf_in_browser = (\<lambda>file. Inr (Buffer ''pdf made in the browser'')),
      imageFormat_in_browser = (\<lambda>file out. Inr (Buffer (''image made in the browser: '' @ out))),
      fetch_api_convert =
        (\<lambda>file out. Inr \<lparr>response_ok = True, response_statusText = ''OK'',
                           response_blob = Buffer (''made by the server: '' @ out)\<rparr>)\<rparr>"

text \<open>The same browser when it cannot decode the image: both conversions reject.\<close>

definition undecodableBrowser :: browser where
  "undecodableBrowser =
     workingBrowser\<lparr>imageToPdf_in_browser := (\<lambda>file. Inl (Error ''Failed to load image'')),
                    imageFormat_in_browser := (\<lambda>file out. Inl (Error ''Failed to load image''))\<rparr>"

text \<open>The state of the component before a conversion.\<close>

definition nothingConverted :: conversions where
  "nothingConverted = \<lparr>convertedFiles = [], errorShown = '''', calls = []\<rparr>"

text \<open>Metadata of a 1000 by 2000 JPEG, for concrete runs.\<close>

definition tallJpeg :: metadata where
  "tallJpeg = \<lparr>md_width = Some 1000, md_height = Some 2000, md_format = Some ''jpeg''\<rparr>"

text \<open>Files dropped on the component, for concrete runs.\<close>

definition photoPng :: upload where
  "photoPng = \<lparr>file_name = ''photo.PNG'', file_data = Buffer ''png bytes''\<rparr>"

definition notesDocx :: upload where
  "notesDocx = \<lparr>file_name = ''notes.docx'', file_data = Buffer ''docx bytes''\<rparr>"

definition animGif :: upload where
  "animGif = \<lparr>file_name = ''anim.gif'', file_data = Buffer ''GIF89a''\<rparr>"

section \<open>Basic facts\<close>

lemma split_nonempty: "split sep s \<noteq> []"
  by (induction s) (auto simp: Let_def)

lemma split_newlines: "split (CHR 0x0A) (replicate n (CHR 0x0A)) = replicate (Suc n) []"
  by (induction n) simp_all

lemma length_draw: "length (draw d i operation) = length d"
  by (simp add: draw_def)

section \<open>Properties of the format classifier\<close>

lemmas classifier_defs =
  availableOutputs_def js_get_def formatCategories_def supportedFormats_def
  supportedFormats_image_def supportedFormats_document_def
  supportedFormats_presentation_def supportedFormats_other_def object_prototype_keys_def

lemmas extension_defs =
  getFileExtension_def pop_def toLowerCase_def lower_char_def lower_table_def



section \<open>Properties of the dispatcher\<close>

lemma inputFormatOf_Some:
  "inputFormatOf file = Some (toLowerCase (last (split CHR ''.'' (file_name file))))"
  by (simp add: inputFormatOf_def pop_def split_nonempty)

lemma selectPipeline_in_table:
  assumes "selectPipeline (Some i) out = Some p"
  shows "inDispatchTable i out"
  using assms
  by (auto simp: selectPipeline_def arrayIncludes_def inDispatchTable_def tableImageFormats_def
           split: if_splits)

lemma selectPipeline_output_nonempty:
  assumes "selectPipeline i out = Some p"
  shows "out \<noteq> []"
  using assms by (auto simp: selectPipeline_def split: if_splits)

lemma selectPipeline_outside_table:
  assumes "\<not> inDispatchTable i out"
  shows "selectPipeline (Some i) out = None"
proof (cases "selectPipeline (Some i) out")
  case None
  then show ?thesis .
next
  case (Some p)
  from selectPipeline_in_table [OF Some] assms show ?thesis by simp
qed

lemma unsupportedMessage_names:
  "sublist (toUpperCase i) (unsupportedMessage (Some i) out) \<and>
   sublist (toUpperCase out) (unsupportedMessage (Some i) out)"
proof
  show "sublist (toUpperCase i) (unsupportedMessage (Some i) out)"
    unfolding unsupportedMessage_def option.case
    by (rule sublist_appendI)
  have "unsupportedMessage (Some i) out =
        (''Conversion from '' @ toUpperCase i @ '' to '') @ toUpperCase out @
        ('' is not supported yet. Currently supported: Image '' @ leftRightArrow @
         '' Image, Image '' @ leftRightArrow @ '' PDF, DOCX '' @ rightArrow @
         '' PDF/TXT, TXT '' @ rightArrow @ '' PDF'')"
    by (simp add: unsupportedMessage_def)
  then show "sublist (toUpperCase out) (unsupportedMessage (Some i) out)"
    by (metis sublist_appendI)
qed

lemma POST_dispatch:
  assumes "out \<noteq> []"
  shows "POST L (Some file) (Some out) =
           (case dispatch L file out of
              Inl e \<Rightarrow> Json 500 (''Conversion failed: '' @ message e)
            | Inr r \<Rightarrow> r)"
  using assms by (simp add: POST_def)

text \<open>
  C5. For every pair of input and output format that is not in the dispatch table, the
  dispatcher selects no pipeline and answers with status 400 and a message that names
  both formats (in upper case); a request with a non-empty output format gets exactly
  that response from \<open>POST\<close>. When the selected pipeline throws, \<open>POST\<close> answers with
  status 500 and the message of the error.
\<close>

theorem unsupported_pairs_rejected:
  "(inputFormatOf file = Some i \<and> \<not> inDispatchTable i out \<longrightarrow>
      selectPipeline (inputFormatOf file) out = None \<and>
      dispatch L file out = Inr (Json 400 (unsupportedMessage (Some i) out)) \<and>
      status (Json 400 (unsupportedMessage (Some i) out)) = 400 \<and>
      sublist (toUpperCase i) (unsupportedMessage (Some i) out) \<and>
      sublist (toUpperCase out) (unsupportedMessage (Some i) out) \<and>
      (out \<noteq> [] \<longrightarrow>
         POST L (Some file) (Some out) = Json 400 (unsupportedMessage (Some i) out))) \<and>
   (selectPipeline (inputFormatOf file) out = Some p \<and>
    runPipeline L p (file_data file) out = Inl e \<longrightarrow>
      POST L (Some file) (Some out) = Json 500 (''Conversion failed: '' @ message e) \<and>
      status (POST L (Some file) (Some out)) = 500)"
proof (intro conjI impI)
  assume a: "inputFormatOf file = Some i \<and> \<not> inDispatchTable i out"
  then have none: "selectPipeline (inputFormatOf file) out = None"
    using selectPipeline_outside_table [of i out] by simp
  then show "selectPipeline (inputFormatOf file) out = None" .
  from none a show d: "dispatch L file out = Inr (Json 400 (unsupportedMessage (Some i) out))"
    by (simp add: dispatch_def)
  show "status (Json 400 (unsupportedMessage (Some i) out)) = 400" by simp
  show "sublist (toUpperCase i) (unsupportedMessage (Some i) out)"
    using unsupportedMessage_names by blast
  show "sublist (toUpperCase out) (unsupportedMessage (Some i) out)"
    using unsupportedMessage_names by blast
  assume "out \<noteq> []"
  with d show "POST L (Some file) (Some out) = Json 400 (unsupportedMessage (Some i) out)"
    by (simp add: POST_dispatch)
next
  assume a: "selectPipeline (inputFormatOf file) out = Some p \<and>
    runPipeline L p (file_data file) out = Inl e"
  then have ne: "out \<noteq> []"
    using selectPipeline_output_nonempty by blast
  from a have "dispatch L file out = Inl e"
    by (simp add: dispatch_def)
  with ne show r: "POST L (Some file) (Some out) = Json 500 (''Conversion failed: '' @ message e)"
    by (simp add: POST_dispatch)
  then show "status (POST L (Some file) (Some out)) = 500" by simp
qed

lemmas inputFormat_defs =
  inputFormatOf_def pop_def toLowerCase_def lower_char_def lower_table_def

lemmas table_defs = inDispatchTable_def tableImageFormats_def

theorem unsupported_pairs_rejected_witness:
  "POST (quietLib smallPng) (Some \<lparr>file_name = ''data.csv'', file_data = Buffer ''a,b''\<rparr>)
     (Some ''pdf'') = Json 400 (unsupportedMessage (Some ''csv'') ''pdf'') \<and>
   POST brokenImageLib (Some \<lparr>file_name = ''photo.png'', file_data = Buffer ''x''\<rparr>)
     (Some ''pdf'') =
     Json 500 ''Conversion failed: Input buffer contains unsupported image format''"
proof -
  let ?csv = "\<lparr>file_name = ''data.csv'', file_data = Buffer ''a,b''\<rparr>"
  let ?png = "\<lparr>file_name = ''photo.png'', file_data = Buffer ''x''\<rparr>"
  have a: "inputFormatOf ?csv = Some ''csv'' \<and> \<not> inDispatchTable ''csv'' ''pdf''"
    by (simp add: inputFormat_defs table_defs)
  have b: "selectPipeline (inputFormatOf ?png) ''pdf'' = Some ImageToPdf \<and>
           runPipeline brokenImageLib ImageToPdf (file_data ?png) ''pdf'' =
             Inl (Error ''Input buffer contains unsupported image format'')"
    by (simp add: inputFormat_defs selectPipeline_def arrayIncludes_def brokenImageLib_def
          quietLib_def convertImageToPdf_def)
  have "POST (quietLib smallPng) (Some ?csv) (Some ''pdf'') =
          Json 400 (unsupportedMessage (Some ''csv'') ''pdf'')"
    using unsupported_pairs_rejected [of ?csv "''csv''" "''pdf''" "quietLib smallPng"] a
    by simp
  moreover have "POST brokenImageLib (Some ?png) (Some ''pdf'') =
          Json 500 ''Conversion failed: Input buffer contains unsupported image format''"
    using unsupported_pairs_rejected [of ?png _ "''pdf''" brokenImageLib ImageToPdf
        "Error ''Input buffer contains unsupported image format''"] b
    by simp
  ultimately show ?thesis ..
qed

text \<open>
  A request whose output format is missing or empty does not reach the dispatcher: the
  guard of line 14 answers it with status 400 and its own message.
\<close>

lemma POST_without_output_format:
  "POST L (Some file) (Some []) = Json 400 ''Missing file or output format'' \<and>
   POST L (Some file) None = Json 400 ''Missing file or output format''"
  by (simp add: POST_def)

lemma image_to_pdf_selected:
  assumes "i \<in> set [''jpg'', ''jpeg'', ''png'', ''gif'', ''webp'']"
  shows "selectPipeline (Some i) ''pdf'' = Some ImageToPdf"
  using assms by (auto simp: selectPipeline_def arrayIncludes_def)

text \<open>
  C4. The dispatcher selects the image-to-PDF pipeline for jpg, jpeg, png, gif and webp
  (\<open>image_to_pdf_selected\<close>), but not for bmp: the list of line 32 leaves bmp out, while
  the list of line 38 (image to image) has it. A request for \<open>scan.bmp\<close> to \<open>pdf\<close> is a
  pair of the table, selects no pipeline and is answered with status 400, although the
  client offers \<open>pdf\<close> for a bmp file and sends that request to the server.
\<close>

theorem bmp_to_pdf_rejected:
  "inputFormatOf \<lparr>file_name = ''scan.bmp'', file_data = b\<rparr> = Some ''bmp'' \<and>
   inDispatchTable ''bmp'' ''pdf'' \<and>
   selectPipeline (Some ''bmp'') ''pdf'' = None \<and>
   POST L (Some \<lparr>file_name = ''scan.bmp'', file_data = b\<rparr>) (Some ''pdf'') =
     Json 400 (unsupportedMessage (Some ''bmp'') ''pdf'') \<and>
   selectPipeline (Some ''bmp'') ''png'' = Some ImageToImage \<and>
   availableOutputs ''bmp'' =
     Inr [''jpg'', ''jpeg'', ''png'', ''gif'', ''webp'', ''svg'', ''pdf''] \<and>
   convertFile ''scan.bmp'' ''pdf'' = FetchApiConvert ''scan.bmp'' ''pdf''"
proof -
  have f: "inputFormatOf \<lparr>file_name = ''scan.bmp'', file_data = b\<rparr> = Some ''bmp''"
    by (simp add: inputFormat_defs)
  have s: "selectPipeline (Some ''bmp'') ''pdf'' = None"
    by (simp add: selectPipeline_def arrayIncludes_def)
  have "dispatch L \<lparr>file_name = ''scan.bmp'', file_data = b\<rparr> ''pdf'' =
          Inr (Json 400 (unsupportedMessage (Some ''bmp'') ''pdf''))"
    using f s by (simp add: dispatch_def)
  then have p: "POST L (Some \<lparr>file_name = ''scan.bmp'', file_data = b\<rparr>) (Some ''pdf'') =
     Json 400 (unsupportedMessage (Some ''bmp'') ''pdf'')"
    by (simp add: POST_dispatch)
  have t: "inDispatchTable ''bmp'' ''pdf''"
    by (simp add: table_defs)
  have i: "selectPipeline (Some ''bmp'') ''png'' = Some ImageToImage"
    by (simp add: selectPipeline_def arrayIncludes_def)
  have a: "availableOutputs ''bmp'' =
     Inr [''jpg'', ''jpeg'', ''png'', ''gif'', ''webp'', ''svg'', ''pdf'']"
    by (simp add: classifier_defs)
  have c: "convertFile ''scan.bmp'' ''pdf'' = FetchApiConvert ''scan.bmp'' ''pdf''"
    by (simp add: convertFile_def extension_defs)
  from f t s p i a c show ?thesis by simp
qed

lemma convertPdfToImage_blank:
  "convertPdfToImage L pdfBuffer out =
     (case sharp_toBuffer L (Create 595 842 3 (255, 255, 255)) Png of
        Inl e \<Rightarrow> Inl (Error ''PDF to image conversion failed'')
      | Inr blank \<Rightarrow>
          (case sharp_toBuffer L (FromBuffer blank)
                  (if out = ''jpg'' \<or> out = ''jpeg'' then Jpeg 90 else Png) of
             Inl e \<Rightarrow> Inl (Error ''PDF to image conversion failed'')
           | Inr converted \<Rightarrow> Inr converted))"
  by (simp add: convertPdfToImage_def split: sum.splits)

text \<open>
  C9. For the output formats jpg, jpeg and png, the result of \<open>convertPdfToImage\<close> is the
  same for any two PDF buffers: it is the blank white 595 by 842 image, encoded as JPEG
  (quality 90) or PNG, or the error of the \<open>catch\<close> block. Two requests that differ only
  in the bytes of the PDF get the same response.
\<close>

theorem pdf_to_image_ignores_content:
  assumes "out \<in> set [''jpg'', ''jpeg'', ''png'']"
  shows "convertPdfToImage L pdf1 out = convertPdfToImage L pdf2 out \<and>
         convertPdfToImage L pdf1 out =
           (case sharp_toBuffer L (Create 595 842 3 (255, 255, 255)) Png of
              Inl e \<Rightarrow> Inl (Error ''PDF to image conversion failed'')
            | Inr blank \<Rightarrow>
                (case sharp_toBuffer L (FromBuffer blank)
                        (if out = ''png'' then Png else Jpeg 90) of
                   Inl e \<Rightarrow> Inl (Error ''PDF to image conversion failed'')
                 | Inr converted \<Rightarrow> Inr converted)) \<and>
         (inputFormatOf \<lparr>file_name = n, file_data = pdf1\<rparr> = Some ''pdf'' \<longrightarrow>
            selectPipeline (inputFormatOf \<lparr>file_name = n, file_data = pdf1\<rparr>) out =
              Some PdfToImage \<and>
            POST L (Some \<lparr>file_name = n, file_data = pdf1\<rparr>) (Some out) =
            POST L (Some \<lparr>file_name = n, file_data = pdf2\<rparr>) (Some out))"
proof (intro conjI impI)
  show "convertPdfToImage L pdf1 out = convertPdfToImage L pdf2 out"
    by (simp add: convertPdfToImage_blank)
  from assms show "convertPdfToImage L pdf1 out =
           (case sharp_toBuffer L (Create 595 842 3 (255, 255, 255)) Png of
              Inl e \<Rightarrow> Inl (Error ''PDF to image conversion failed'')
            | Inr blank \<Rightarrow>
                (case sharp_toBuffer L (FromBuffer blank)
                        (if out = ''png'' then Png else Jpeg 90) of
                   Inl e \<Rightarrow> Inl (Error ''PDF to image conversion failed'')
                 | Inr converted \<Rightarrow> Inr converted))"
    by (auto simp: convertPdfToImage_blank)
next
  assume f: "inputFormatOf \<lparr>file_name = n, file_data = pdf1\<rparr> = Some ''pdf''"
  then have f2: "inputFormatOf \<lparr>file_name = n, file_data = pdf2\<rparr> = Some ''pdf''"
    by (simp add: inputFormatOf_def)
  from assms have sel: "selectPipeline (Some ''pdf'') out = Some PdfToImage"
    by (simp add: selectPipeline_def)
  with f show "selectPipeline (inputFormatOf \<lparr>file_name = n, file_data = pdf1\<rparr>) out =
              Some PdfToImage"
    by simp
  have same: "convertPdfToImage L pdf1 out = convertPdfToImage L pdf2 out"
    by (simp add: convertPdfToImage_blank)
  have "dispatch L \<lparr>file_name = n, file_data = pdf1\<rparr> out =
        dispatch L \<lparr>file_name = n, file_data = pdf2\<rparr> out"
    using f f2 sel same by (simp add: dispatch_def split: sum.splits)
  moreover from assms have "out \<noteq> []" by auto
  ultimately show "POST L (Some \<lparr>file_name = n, file_data = pdf1\<rparr>) (Some out) =
            POST L (Some \<lparr>file_name = n, file_data = pdf2\<rparr>) (Some out)"
    by (simp add: POST_dispatch)
qed

theorem pdf_to_image_ignores_content_witness:
  "convertPdfToImage (quietLib smallPng) (Buffer ''%PDF-1.4 first'') ''jpg'' =
   convertPdfToImage (quietLib smallPng) (Buffer ''%PDF-1.7 second'') ''jpg'' \<and>
   POST (quietLib smallPng)
     (Some \<lparr>file_name = ''report.PDF'', file_data = Buffer ''%PDF-1.4 first''\<rparr>) (Some ''jpg'') =
   POST (quietLib smallPng)
     (Some \<lparr>file_name = ''report.PDF'', file_data = Buffer ''%PDF-1.7 second''\<rparr>) (Some ''jpg'')"
proof -
  have o: "''jpg'' \<in> set [''jpg'', ''jpeg'', ''png'']" by simp
  have f: "inputFormatOf \<lparr>file_name = ''report.PDF'', file_data = Buffer ''%PDF-1.4 first''\<rparr>
           = Some ''pdf''"
    by (simp add: inputFormat_defs)
  from pdf_to_image_ignores_content [OF o, of "quietLib smallPng" "Buffer ''%PDF-1.4 first''"
      "Buffer ''%PDF-1.7 second''" "''report.PDF''"] f
  show ?thesis by blast
qed

section \<open>Properties of format extraction and of the classifier's lookup\<close>

lemma lower_table_entries:
  "list_all (\<lambda>(c, d). map_of lower_table d = None \<and> c \<noteq> CHR ''.'' \<and> d \<noteq> CHR ''.'')
     lower_table"
  by (simp add: lower_table_def)

lemma lower_table_entry:
  assumes "map_of lower_table c = Some d"
  shows "map_of lower_table d = None \<and> c \<noteq> CHR ''.'' \<and> d \<noteq> CHR ''.''"
proof -
  from assms have "(c, d) \<in> set lower_table" by (rule map_of_SomeD)
  with lower_table_entries show ?thesis
    by (auto simp: list_all_iff)
qed

lemma lower_char_dot: "lower_char c = CHR ''.'' \<longleftrightarrow> c = CHR ''.''"
proof (cases "map_of lower_table c")
  case None
  then show ?thesis by (simp add: lower_char_def)
next
  case (Some d)
  with lower_table_entry [OF Some] show ?thesis by (simp add: lower_char_def)
qed

lemma lower_char_idem: "lower_char (lower_char c) = lower_char c"
proof (cases "map_of lower_table c")
  case None
  then show ?thesis by (simp add: lower_char_def)
next
  case (Some d)
  with lower_table_entry [OF Some] show ?thesis by (simp add: lower_char_def)
qed

lemma toLowerCase_idem: "toLowerCase (toLowerCase s) = toLowerCase s"
  by (simp add: toLowerCase_def lower_char_idem)

lemma split_toLowerCase:
  "split CHR ''.'' (toLowerCase s) = map toLowerCase (split CHR ''.'' s)"
proof (induction s)
  case Nil
  then show ?case by (simp add: toLowerCase_def)
next
  case (Cons c cs)
  have ne: "split CHR ''.'' cs \<noteq> []" by (rule split_nonempty)
  show ?case
  proof (cases "c = CHR ''.''")
    case True
    then have "lower_char c = CHR ''.''" by (simp add: lower_char_dot)
    with True Cons show ?thesis by (simp add: toLowerCase_def Let_def)
  next
    case False
    then have "lower_char c \<noteq> CHR ''.''" by (simp add: lower_char_dot)
    with False Cons ne show ?thesis
      by (simp add: toLowerCase_def hd_map map_tl Let_def)
  qed
qed

lemma getFileExtension_last:
  "getFileExtension n = toLowerCase (last (split CHR ''.'' n))"
  by (simp add: getFileExtension_def pop_def split_nonempty toLowerCase_def)

lemma getFileExtension_toLowerCase:
  "getFileExtension (toLowerCase n) = getFileExtension n"
  by (simp add: getFileExtension_last split_toLowerCase last_map split_nonempty
        toLowerCase_idem)

text \<open>
  Extraction is case-insensitive: two file names that differ only in the case of
  letters have the same format identifier.
\<close>

lemma getFileExtension_case_insensitive:
  assumes "toLowerCase a = toLowerCase b"
  shows "getFileExtension a = getFileExtension b"
  using assms getFileExtension_toLowerCase [of a] getFileExtension_toLowerCase [of b]
  by simp

lemma split_no_separator:
  assumes "sep \<notin> set s"
  shows "split sep s = [s]"
  using assms by (induction s) (auto simp: Let_def)

text \<open>
  A name with no dot is one piece, and that piece is both the first and the last: the
  identifier of a name without extension is the whole name in lower case.
\<close>

lemma getFileExtension_no_dot:
  assumes "CHR ''.'' \<notin> set n"
  shows "getFileExtension n = toLowerCase n"
  using assms by (simp add: getFileExtension_last split_no_separator)

text \<open>
  C7. The extraction is case-insensitive (\<open>getFileExtension_case_insensitive\<close>), but a
  file name with no dot does not give an empty identifier: \<open>README\<close> gives \<open>readme\<close>,
  and a file named \<open>pdf\<close> gives \<open>pdf\<close>, for which the classifier returns the eleven
  outputs of a PDF and the server selects the PDF-to-image pipeline. The fallback
  \<open>|| ""\<close> only applies to a name that ends with a dot.
\<close>

theorem name_without_dot_is_its_own_format:
  "getFileExtension ''README'' = ''readme'' \<and>
   getFileExtension ''pdf'' = ''pdf'' \<and>
   getAvailableOutputFormats [''pdf''] =
     Inr [''jpg'', ''jpeg'', ''png'', ''gif'', ''bmp'', ''webp'', ''svg'',
          ''docx'', ''doc'', ''txt'', ''rtf''] \<and>
   inputFormatOf \<lparr>file_name = ''pdf'', file_data = b\<rparr> = Some ''pdf'' \<and>
   selectPipeline (Some ''pdf'') ''png'' = Some PdfToImage \<and>
   getFileExtension ''archive.'' = ''''"
proof -
  have a: "getFileExtension ''README'' = ''readme''"
    by (simp add: extension_defs)
  have b: "getFileExtension ''pdf'' = ''pdf''"
    by (simp add: extension_defs)
  have c: "getAvailableOutputFormats [''pdf''] =
     Inr [''jpg'', ''jpeg'', ''png'', ''gif'', ''bmp'', ''webp'', ''svg'',
          ''docx'', ''doc'', ''txt'', ''rtf'']"
    by (simp add: getAvailableOutputFormats_def classifier_defs b)
  have d: "inputFormatOf \<lparr>file_name = ''pdf'', file_data = b\<rparr> = Some ''pdf''"
    by (simp add: inputFormat_defs)
  have e: "selectPipeline (Some ''pdf'') ''png'' = Some PdfToImage"
    by (simp add: selectPipeline_def)
  have f: "getFileExtension ''archive.'' = ''''"
    by (simp add: extension_defs)
  from a b c d e f show ?thesis by (intro conjI)
qed

text \<open>
  The outputs for \<open>pdf\<close> are all image formats and all document formats but \<open>pdf\<close>. An
  input format that is neither a key of \<open>formatCategories\<close> nor the name of a property
  every object inherits has no outputs.
\<close>

lemma availableOutputs_pdf:
  "availableOutputs ''pdf'' =
     Inr [''jpg'', ''jpeg'', ''png'', ''gif'', ''bmp'', ''webp'', ''svg'',
          ''docx'', ''doc'', ''txt'', ''rtf''] \<and>
   set [''jpg'', ''jpeg'', ''png'', ''gif'', ''bmp'', ''webp'', ''svg'',
          ''docx'', ''doc'', ''txt'', ''rtf''] =
     set supportedFormats_image \<union> (set supportedFormats_document - {''pdf''})"
proof
  show "availableOutputs ''pdf'' =
     Inr [''jpg'', ''jpeg'', ''png'', ''gif'', ''bmp'', ''webp'', ''svg'',
          ''docx'', ''doc'', ''txt'', ''rtf'']"
    by (simp add: classifier_defs)
  have rest: "set supportedFormats_document - {''pdf''} = set [''docx'', ''doc'', ''txt'', ''rtf'']"
    by (simp add: supportedFormats_document_def insert_Diff_if)
  have whole: "[''jpg'', ''jpeg'', ''png'', ''gif'', ''bmp'', ''webp'', ''svg'',
          ''docx'', ''doc'', ''txt'', ''rtf''] =
     supportedFormats_image @ [''docx'', ''doc'', ''txt'', ''rtf'']"
    by (simp add: supportedFormats_image_def)
  show "set [''jpg'', ''jpeg'', ''png'', ''gif'', ''bmp'', ''webp'', ''svg'',
          ''docx'', ''doc'', ''txt'', ''rtf''] =
     set supportedFormats_image \<union> (set supportedFormats_document - {''pdf''})"
    by (simp only: whole set_append rest)
qed

lemma availableOutputs_unknown:
  assumes "map_of formatCategories i = None" and "i \<notin> set object_prototype_keys"
  shows "availableOutputs i = Inr []"
  using assms by (simp add: availableOutputs_def js_get_def)

text \<open>
  C6. For \<open>pdf\<close> the classifier returns what the claim says (\<open>availableOutputs_pdf\<close>),
  and for an unknown format the empty list (\<open>availableOutputs_unknown\<close>), with one
  exception: \<open>constructor\<close> is not a key of \<open>formatCategories\<close>, yet
  \<open>formatCategories["constructor"]\<close> is the inherited \<open>Object\<close> function, which passes
  the guard \<open>if (!inputCategory) return []\<close>; the last branch then reads
  \<open>supportedFormats[inputCategory]\<close>, which is \<open>undefined\<close>, and \<open>.filter\<close> throws. For
  a file named \<open>report.constructor\<close> the classifier throws a TypeError instead of
  returning the empty list.
\<close>

theorem inherited_key_is_not_empty:
  "map_of formatCategories ''constructor'' = None \<and>
   getFileExtension ''report.constructor'' = ''constructor'' \<and>
   js_get formatCategories ''constructor'' = JsObject \<and>
   getAvailableOutputFormats [''report.constructor''] = Inl filterOfUndefined \<and>
   getAvailableOutputFormats [''report.constructor''] \<noteq> Inr []"
proof -
  have a: "map_of formatCategories ''constructor'' = None"
    by (simp add: formatCategories_def)
  have b: "getFileExtension ''report.constructor'' = ''constructor''"
    by (simp add: extension_defs)
  have c: "js_get formatCategories ''constructor'' = JsObject"
    by (simp add: js_get_def object_prototype_keys_def a)
  have d: "getAvailableOutputFormats [''report.constructor''] = Inl filterOfUndefined"
    by (simp add: getAvailableOutputFormats_def availableOutputs_def b c)
  have e: "getAvailableOutputFormats [''report.constructor''] \<noteq> Inr []"
    by (simp add: d)
  from a b c d e show ?thesis by (intro conjI)
qed

section \<open>Properties of the double arithmetic\<close>

text \<open>
  Rounding to a double moves a number by at most its 2^-53 part, and is computed by
  scaling the number into the range of the 53-bit integers.
\<close>

lemma roundEven_error: "\<bar>of_int (roundEven x) - x\<bar> \<le> 1 / 2"
  unfolding roundEven_def Let_def by (auto simp: abs_if) linarith+

lemma roundEven_of_int: "roundEven (of_int m) = m"
  by (simp add: roundEven_def)

lemma scaleRound_error: "\<bar>scaleRound n x - x\<bar> \<le> \<bar>x\<bar> / 2 ^ 53"
proof (induction n arbitrary: x)
  case 0
  then show ?case by simp
next
  case (Suc n)
  show ?case
  proof (cases "\<bar>x\<bar> < 2 ^ 52")
    case True
    have "\<bar>scaleRound n (2 * x) / 2 - x\<bar> = \<bar>scaleRound n (2 * x) - 2 * x\<bar> / 2"
      by (simp add: field_simps abs_if)
    also have "\<dots> \<le> (\<bar>2 * x\<bar> / 2 ^ 53) / 2"
      using Suc.IH [of "2 * x"] by (simp add: divide_right_mono)
    also have "\<dots> = \<bar>x\<bar> / 2 ^ 53" by (simp add: abs_mult)
    finally show ?thesis using True by simp
  next
    case False
    show ?thesis
    proof (cases "2 ^ 53 \<le> \<bar>x\<bar>")
      case True
      have "\<bar>scaleRound n (x / 2) * 2 - x\<bar> = \<bar>scaleRound n (x / 2) - x / 2\<bar> * 2"
        by (simp add: field_simps abs_if)
      also have "\<dots> \<le> (\<bar>x / 2\<bar> / 2 ^ 53) * 2"
        using Suc.IH [of "x / 2"] by (simp add: mult_right_mono)
      also have "\<dots> = \<bar>x\<bar> / 2 ^ 53" by simp
      finally show ?thesis using True False by simp
    next
      case notbig: False
      have "\<bar>of_int (roundEven x) - x\<bar> \<le> 1 / 2" by (rule roundEven_error)
      also have "\<dots> \<le> \<bar>x\<bar> / 2 ^ 53" using False by (simp add: field_simps)
      finally show ?thesis using False notbig by simp
    qed
  qed
qed

lemma toDouble_error: "\<bar>toDouble x - x\<bar> \<le> \<bar>x\<bar> / 2 ^ 53"
proof (cases "x = 0")
  case True
  then show ?thesis by (simp add: toDouble_def)
next
  case False
  then have "toDouble x = scaleRound 1100 x" by (simp add: toDouble_def)
  then show ?thesis using scaleRound_error [of 1100 x] by simp
qed

lemma scaleRound_up:
  assumes "k < n" and "2 ^ 52 \<le> \<bar>x\<bar> * 2 ^ k" and "\<bar>x\<bar> * 2 ^ k < 2 ^ 53"
  shows "scaleRound n x = of_int (roundEven (x * 2 ^ k)) / 2 ^ k"
  using assms
proof (induction k arbitrary: n x)
  case 0
  then obtain n' where n: "n = Suc n'" by (cases n) auto
  from 0 show ?case by (simp add: n)
next
  case (Suc k)
  then obtain n' where n: "n = Suc n'" by (cases n) auto
  have small: "\<bar>x\<bar> < 2 ^ 52"
  proof -
    have "\<bar>x\<bar> * 2 \<le> \<bar>x\<bar> * 2 ^ Suc k"
      by (intro mult_left_mono) (simp_all add: self_le_power)
    also have "\<dots> < 2 ^ 53" by (rule Suc.prems(3))
    finally show ?thesis by simp
  qed
  have "scaleRound n' (2 * x) = of_int (roundEven ((2 * x) * 2 ^ k)) / 2 ^ k"
    using Suc.prems n by (intro Suc.IH) (simp_all add: abs_mult mult.assoc mult.left_commute)
  then show ?case using small by (simp add: n mult.assoc mult.left_commute)
qed

lemma toDouble_scaled:
  assumes "k < 1100" and "2 ^ 52 \<le> \<bar>x\<bar> * 2 ^ k" and "\<bar>x\<bar> * 2 ^ k < 2 ^ 53"
  shows "toDouble x = of_int (roundEven (x * 2 ^ k)) / 2 ^ k"
proof -
  from assms(2) have "x \<noteq> 0" by auto
  then show ?thesis
    using scaleRound_up [OF assms] by (simp add: toDouble_def)
qed

lemma toDouble_792: "toDouble 792 = 792"
  using toDouble_scaled [of 43 792] by (simp add: roundEven_def)

lemma toDouble_1_2: "toDouble (6 / 5) = 5404319552844595 / 2 ^ 52"
  using toDouble_scaled [of 52 "6 / 5"] by (simp add: roundEven_def)

subsection \<open>The cursor of text reflow\<close>

text \<open>
  The cursor starts at 792 and goes down by \<open>lineHeight\<close>, the double
  14.399999999999998...; after \<open>j\<close> steps it is within \<open>j\<close> parts in 10^12 of
  \<open>792 - 14.4 j\<close>. It is first below \<open>margin + lineHeight\<close>, about 64.4, after 51 steps
  (57.6 against 72 after 50).
\<close>

lemma start_cursor: "fsub pageHeight margin = 792"
  by (simp add: fsub_def pageHeight_def margin_def toDouble_792)

lemma lineHeight_value: "lineHeight = 2026619832316723 / 2 ^ 47"
proof -
  have "lineHeight = toDouble (16212958658533785 / 1125899906842624)"
    by (simp add: lineHeight_def fontSize_def fmul_def toDouble_1_2)
  also have "\<dots> = of_int (roundEven (16212958658533785 / 1125899906842624 * 2 ^ 49)) / 2 ^ 49"
    by (rule toDouble_scaled) simp_all
  also have "\<dots> = 2026619832316723 / 2 ^ 47"
    by (simp add: roundEven_def)
  finally show ?thesis .
qed

lemma lineHeight_near:
  "72 / 5 - 1 / 100000000000000 \<le> lineHeight \<and> lineHeight \<le> 72 / 5"
  by (simp add: lineHeight_value)

lemma cursorAt_0: "cursorAt 0 = 792"
  by (simp add: cursorAt_def start_cursor)

lemma cursorAt_Suc: "cursorAt (Suc j) = fsub (cursorAt j) lineHeight"
  by (simp add: cursorAt_def)

lemma toDouble_near:
  assumes "\<bar>x\<bar> \<le> 800"
  shows "\<bar>toDouble x - x\<bar> \<le> 1 / 10000000000000"
proof -
  have "\<bar>toDouble x - x\<bar> \<le> \<bar>x\<bar> / 2 ^ 53" by (rule toDouble_error)
  also have "\<dots> \<le> 800 / 2 ^ 53" using assms by (simp add: divide_right_mono)
  also have "\<dots> \<le> 1 / 10000000000000" by simp
  finally show ?thesis .
qed

lemma cursorAt_near:
  assumes "j \<le> 51"
  shows "\<bar>cursorAt j - (792 - 72 / 5 * real j)\<bar> \<le> real j / 1000000000000"
  using assms
proof (induction j)
  case 0
  then show ?case by (simp add: cursorAt_0)
next
  case (Suc j)
  let ?c = "cursorAt j"
  from Suc have ih: "\<bar>?c - (792 - 72 / 5 * real j)\<bar> \<le> real j / 1000000000000"
    and j: "real j \<le> 50"
    by simp_all
  have "\<bar>?c - lineHeight\<bar> \<le> 800"
    using ih lineHeight_near j by argo
  from toDouble_near [OF this]
  have round: "\<bar>fsub ?c lineHeight - (?c - lineHeight)\<bar> \<le> 1 / 10000000000000"
    by (simp add: fsub_def)
  have lh: "72 / 5 - 1 / 100000000000000 \<le> lineHeight" "lineHeight \<le> 72 / 5"
    using lineHeight_near by simp_all
  have "\<bar>fsub ?c lineHeight - (792 - 72 / 5 * (real j + 1))\<bar> \<le> (real j + 1) / 1000000000000"
    using round ih lh j by argo
  moreover have "real (Suc j) = real j + 1" by simp
  ultimately show ?case
    by (simp only: cursorAt_Suc)
qed

lemma threshold_near: "\<bar>fadd margin lineHeight - 322 / 5\<bar> \<le> 1 / 1000000000000"
proof -
  have "\<bar>margin + lineHeight\<bar> \<le> 800"
    using lineHeight_near by (simp add: margin_def)
  from toDouble_near [OF this]
  have "\<bar>fadd margin lineHeight - (50 + lineHeight)\<bar> \<le> 1 / 10000000000000"
    by (simp add: fadd_def margin_def)
  then show ?thesis using lineHeight_near by argo
qed

lemma cursor_above_threshold:
  assumes "j \<le> 50"
  shows "\<not> cursorAt j < fadd margin lineHeight"
proof -
  have jr: "real j \<le> 50" using assms by simp
  from assms have "j \<le> 51" by simp
  from cursorAt_near [OF this] threshold_near jr show ?thesis
    by argo
qed

lemma cursor_below_threshold: "cursorAt 51 < fadd margin lineHeight"
proof -
  have "\<bar>cursorAt 51 - (792 - 72 / 5 * real (51::nat))\<bar> \<le> real (51::nat) / 1000000000000"
    by (rule cursorAt_near) simp
  then have "\<bar>cursorAt 51 - 288 / 5\<bar> \<le> 51 / 1000000000000" by simp
  with threshold_near show ?thesis by argo
qed

section \<open>Properties of text reflow\<close>

lemma drawLine_eq:
  "drawLine L line st =
     (case drawText_throws L (if line = [] then '' '' else line) of
        Some e \<Rightarrow> Inl e
      | None \<Rightarrow>
          Inr (if yPosition st < fadd margin lineHeight then
                 st\<lparr>pdfDoc := pdfDoc st @
                        [\<lparr>page_size = (pageWidth, pageHeight),
                          ops = [DrawText (if line = [] then '' '' else line) margin
                                   (fsub pageHeight margin) fontSize]\<rparr>],
                    currentPage := length (pdfDoc st),
                    yPosition := fsub (fsub pageHeight margin) lineHeight\<rparr>
               else
                 st\<lparr>pdfDoc := (pdfDoc st)[currentPage st :=
                        (pdfDoc st ! currentPage st)
                          \<lparr>ops := ops (pdfDoc st ! currentPage st) @
                             [DrawText (if line = [] then '' '' else line) margin
                                (yPosition st) fontSize]\<rparr>],
                    yPosition := fsub (yPosition st) lineHeight\<rparr>))"
  by (cases "drawText_throws L (if line = [] then '' '' else line)")
     (simp_all add: drawLine_def drawText_def addPage_def draw_def Let_def)

lemma drawLines_append:
  "drawLines L (xs @ ys) st =
     (case drawLines L xs st of Inl e \<Rightarrow> Inl e | Inr st' \<Rightarrow> drawLines L ys st')"
  by (induction xs arbitrary: st) (simp_all split: sum.splits)

lemma drawnLines_Cons:
  "drawnLines j (l # ls) =
     DrawText (if l = [] then '' '' else l) margin (cursorAt j) fontSize # drawnLines (Suc j) ls"
  by (simp add: drawnLines_def)

lemma drawnLines_Nil: "drawnLines j [] = []"
  by (simp add: drawnLines_def)

lemma drawnLines_append:
  "drawnLines j (xs @ ys) = drawnLines j xs @ drawnLines (j + length xs) ys"
  by (induction xs arbitrary: j) (simp_all add: drawnLines_Cons drawnLines_Nil)

text \<open>Filling the current page: the lines fit, so no page is added.\<close>

lemma drawLines_fill:
  assumes "\<forall>l \<in> set ls. drawText_throws L (if l = [] then '' '' else l) = None"
    and "currentPage st < length (pdfDoc st)"
    and "yPosition st = cursorAt j"
    and "j + length ls \<le> 51"
  shows "drawLines L ls st =
           Inr (st\<lparr>pdfDoc := (pdfDoc st)[currentPage st :=
                      (pdfDoc st ! currentPage st)
                        \<lparr>ops := ops (pdfDoc st ! currentPage st) @ drawnLines j ls\<rparr>],
                  yPosition := cursorAt (j + length ls)\<rparr>)"
  using assms
proof (induction ls arbitrary: st j)
  case Nil
  then show ?case by (simp add: drawnLines_Nil)
next
  case (Cons l ls)
  let ?c = "currentPage st"
  let ?op = "DrawText (if l = [] then '' '' else l) margin (cursorAt j) fontSize"
  let ?st1 = "st\<lparr>pdfDoc := (pdfDoc st)[?c := (pdfDoc st ! ?c)\<lparr>ops := ops (pdfDoc st ! ?c) @ [?op]\<rparr>],
                  yPosition := cursorAt (Suc j)\<rparr>"
  have j: "j \<le> 50" using Cons.prems(4) by simp
  have ok: "drawText_throws L (if l = [] then '' '' else l) = None"
    using Cons.prems(1) by simp
  have step: "drawLine L l st = Inr ?st1"
    using ok cursor_above_threshold [OF j] Cons.prems(3)
    by (simp add: drawLine_eq cursorAt_Suc)
  have rest: "drawLines L ls ?st1 =
      Inr (?st1\<lparr>pdfDoc := (pdfDoc ?st1)[currentPage ?st1 :=
                      (pdfDoc ?st1 ! currentPage ?st1)
                        \<lparr>ops := ops (pdfDoc ?st1 ! currentPage ?st1) @ drawnLines (Suc j) ls\<rparr>],
                  yPosition := cursorAt (Suc j + length ls)\<rparr>)"
    using Cons.prems by (intro Cons.IH) simp_all
  show ?case
    using step rest Cons.prems(2) by (simp add: drawnLines_Cons)
qed

lemma drawLines_fails:
  assumes "\<exists>l \<in> set ls. drawText_throws L (if l = [] then '' '' else l) \<noteq> None"
  shows "\<exists>e. drawLines L ls st = Inl e"
  using assms
proof (induction ls arbitrary: st)
  case Nil
  then show ?case by simp
next
  case (Cons l ls)
  show ?case
  proof (cases "drawText_throws L (if l = [] then '' '' else l)")
    case (Some e)
    then show ?thesis by (simp add: drawLine_eq)
  next
    case None
    with Cons.prems have "\<exists>l \<in> set ls. drawText_throws L (if l = [] then '' '' else l) \<noteq> None"
      by auto
    from Cons.IH [OF this] None show ?thesis
      by (simp add: drawLine_eq)
  qed
qed

lemma textPage_ops: "ops (textPage ls) = drawnLines 0 ls"
  by (simp add: textPage_def)

lemma pagesOfLines_short: "length ls \<le> 51 \<Longrightarrow> pagesOfLines ls = [ls]"
  by (simp add: pagesOfLines.simps)

lemma pagesOfLines_long:
  "\<not> length ls \<le> 51 \<Longrightarrow> pagesOfLines ls = take 51 ls # pagesOfLines (drop 51 ls)"
  by (subst pagesOfLines.simps) simp

text \<open>After a full page: the next line opens a page, and so on to the end.\<close>

lemma drawLines_pages:
  assumes "\<forall>l \<in> set ls. drawText_throws L (if l = [] then '' '' else l) = None"
    and "yPosition st = cursorAt 51"
    and "ls \<noteq> []"
  shows "\<exists>st'. drawLines L ls st = Inr st' \<and> pdfDoc st' = pdfDoc st @ textPages ls"
  using assms
proof (induction ls arbitrary: st rule: pagesOfLines.induct)
  case (1 ls)
  from "1.prems"(3) obtain x xs where ls: "ls = x # xs" by (cases ls) auto
  let ?page = "\<lparr>page_size = (pageWidth, pageHeight),
                 ops = [DrawText (if x = [] then '' '' else x) margin (cursorAt 0) fontSize]\<rparr>"
  let ?st1 = "st\<lparr>pdfDoc := pdfDoc st @ [?page], currentPage := length (pdfDoc st),
                  yPosition := cursorAt 1\<rparr>"
  have okx: "drawText_throws L (if x = [] then '' '' else x) = None"
    using "1.prems"(1) ls by simp
  have okxs: "\<forall>l \<in> set xs. drawText_throws L (if l = [] then '' '' else l) = None"
    using "1.prems"(1) ls by simp
  have first: "drawLine L x st = Inr ?st1"
    using okx cursor_below_threshold "1.prems"(2)
    by (simp add: drawLine_eq start_cursor cursorAt_0 cursorAt_Suc [of 0, simplified cursorAt_0])
  let ?here = "take 50 xs" and ?later = "drop 50 xs"
  have ok_here: "\<forall>l \<in> set ?here. drawText_throws L (if l = [] then '' '' else l) = None"
    using okxs by (meson in_set_takeD)
  have ok_later: "\<forall>l \<in> set ?later. drawText_throws L (if l = [] then '' '' else l) = None"
    using okxs by (meson in_set_dropD)
  let ?st2 = "?st1\<lparr>pdfDoc := (pdfDoc ?st1)[currentPage ?st1 :=
                      (pdfDoc ?st1 ! currentPage ?st1)
                        \<lparr>ops := ops (pdfDoc ?st1 ! currentPage ?st1) @ drawnLines 1 ?here\<rparr>],
                  yPosition := cursorAt (1 + length ?here)\<rparr>"
  have fill: "drawLines L ?here ?st1 = Inr ?st2"
    by (rule drawLines_fill [OF ok_here]) simp_all
  have doc2: "pdfDoc ?st2 = pdfDoc st @ [textPage (take 51 ls)]"
    by (simp add: ls textPage_def drawnLines_Cons)
  have whole: "drawLines L ls st = drawLines L ?later ?st2"
  proof -
    have "drawLines L ls st = drawLines L (x # (?here @ ?later)) st"
      by (simp add: ls)
    also have "\<dots> = drawLines L (?here @ ?later) ?st1"
      using first by simp
    also have "\<dots> = drawLines L ?later ?st2"
      using fill by (simp only: drawLines_append sum.case)
    finally show ?thesis .
  qed
  show ?case
  proof (cases "length ls \<le> 51")
    case True
    then have "?later = []" by (simp add: ls)
    with whole doc2 True show ?thesis
      by (simp add: textPages_def pagesOfLines_short)
  next
    case False
    then have later: "?later \<noteq> []" "?later = drop 51 ls" "length ?here = 50"
      by (simp_all add: ls)
    have y2: "yPosition ?st2 = cursorAt 51"
      using later(3) by simp
    from "1.IH" [OF False, of ?st2] ok_later y2 later
    obtain st' where "drawLines L ?later ?st2 = Inr st'"
      "pdfDoc st' = pdfDoc ?st2 @ textPages (drop 51 ls)"
      by auto
    with whole doc2 False show ?thesis
      by (simp add: textPages_def pagesOfLines_long)
  qed
qed

lemma layoutText_document:
  assumes "\<forall>l \<in> set (split (CHR 0x0A) txt).
             drawText_throws L (if l = [] then '' '' else l) = None"
  shows "layoutText L txt = Inr (textPages (split (CHR 0x0A) txt))"
proof -
  let ?ls = "split (CHR 0x0A) txt"
  let ?st0 = "\<lparr>pdfDoc = [\<lparr>page_size = (pageWidth, pageHeight), ops = []\<rparr>], currentPage = 0,
               yPosition = fsub pageHeight margin\<rparr>"
  let ?here = "take 51 ?ls" and ?later = "drop 51 ?ls"
  have ok_here: "\<forall>l \<in> set ?here. drawText_throws L (if l = [] then '' '' else l) = None"
    using assms by (meson in_set_takeD)
  have ok_later: "\<forall>l \<in> set ?later. drawText_throws L (if l = [] then '' '' else l) = None"
    using assms by (meson in_set_dropD)
  let ?st1 = "?st0\<lparr>pdfDoc := (pdfDoc ?st0)[currentPage ?st0 :=
                      (pdfDoc ?st0 ! currentPage ?st0)
                        \<lparr>ops := ops (pdfDoc ?st0 ! currentPage ?st0) @ drawnLines 0 ?here\<rparr>],
                  yPosition := cursorAt (0 + length ?here)\<rparr>"
  have fill: "drawLines L ?here ?st0 = Inr ?st1"
    by (rule drawLines_fill [OF ok_here]) (simp_all add: cursorAt_0 start_cursor)
  have doc1: "pdfDoc ?st1 = [textPage ?here]"
    by (simp add: textPage_def)
  have whole: "drawLines L ?ls ?st0 = drawLines L ?later ?st1"
  proof -
    have "drawLines L ?ls ?st0 = drawLines L (?here @ ?later) ?st0" by simp
    also have "\<dots> = drawLines L ?later ?st1"
      using fill by (simp only: drawLines_append sum.case)
    finally show ?thesis .
  qed
  have "\<exists>st'. drawLines L ?ls ?st0 = Inr st' \<and> pdfDoc st' = textPages ?ls"
  proof (cases "length ?ls \<le> 51")
    case True
    then have "?later = []" by simp
    with whole doc1 True show ?thesis
      by (simp add: textPages_def pagesOfLines_short)
  next
    case False
    then have later: "?later \<noteq> []" "length ?here = 51" by simp_all
    have y1: "yPosition ?st1 = cursorAt 51" using later(2) by simp
    from drawLines_pages [OF ok_later y1 later(1)]
    obtain st' where "drawLines L ?later ?st1 = Inr st'"
      "pdfDoc st' = pdfDoc ?st1 @ textPages ?later"
      by auto
    with whole doc1 False show ?thesis
      by (simp add: textPages_def pagesOfLines_long)
  qed
  then show ?thesis
    by (auto simp: layoutText_def addPage_def)
qed

lemma length_pagesOfLines: "length (pagesOfLines ls) = 1 + (length ls - 1) div 51"
proof (induction ls rule: pagesOfLines.induct)
  case (1 ls)
  show ?case
  proof (cases "length ls \<le> 51")
    case True
    then have "(length ls - 1) div 51 = 0" by simp
    with True show ?thesis by (simp add: pagesOfLines_short)
  next
    case False
    define m where "m = length ls - 52"
    have n: "length ls = m + 52" using False by (simp add: m_def)
    have "length (pagesOfLines (drop 51 ls)) = 1 + (length (drop 51 ls) - 1) div 51"
      using "1.IH" [OF False] .
    then have "length (pagesOfLines (drop 51 ls)) = 1 + m div 51"
      by (simp add: n)
    moreover have "(length ls - 1) div 51 = m div 51 + 1"
      by (simp add: n)
    ultimately show ?thesis
      by (simp add: pagesOfLines_long [OF False])
  qed
qed

lemma convertTxtToPdf_document:
  assumes "\<forall>l \<in> set (split (CHR 0x0A) (toString_utf8 L txtBuffer)).
             drawText_throws L (if l = [] then '' '' else l) = None"
  shows "convertTxtToPdf L txtBuffer =
           Inr (pdf_save L (textPages (split (CHR 0x0A) (toString_utf8 L txtBuffer))))"
  using layoutText_document [OF assms] by (simp add: convertTxtToPdf_def)

lemma convertTxtToPdf_fails:
  assumes "\<exists>l \<in> set (split (CHR 0x0A) (toString_utf8 L txtBuffer)).
             drawText_throws L (if l = [] then '' '' else l) \<noteq> None"
  shows "convertTxtToPdf L txtBuffer = Inl (Error ''Text to PDF conversion failed'')"
proof -
  from drawLines_fails [OF assms] obtain e where
    "drawLines L (split (CHR 0x0A) (toString_utf8 L txtBuffer))
       \<lparr>pdfDoc = [\<lparr>page_size = (pageWidth, pageHeight), ops = []\<rparr>], currentPage = 0,
        yPosition = fsub pageHeight margin\<rparr> = Inl e"
    by blast
  then show ?thesis
    by (simp add: convertTxtToPdf_def layoutText_def addPage_def)
qed

lemma textPages_51:
  assumes "length ls = 51"
  shows "textPages ls = [textPage ls]"
  using assms by (simp add: textPages_def pagesOfLines_short)

lemma textPages_52:
  assumes "length ls = 52"
  shows "textPages ls = [textPage (take 51 ls), textPage (drop 51 ls)]"
proof -
  from assms have "\<not> length ls \<le> 51" by simp
  from pagesOfLines_long [OF this] assms show ?thesis
    by (simp add: textPages_def pagesOfLines_short)
qed

text \<open>The reflow stage of docx to pdf is \<open>convertTxtToPdf\<close> on the extracted text.\<close>

lemma convertDocxToPdf_reflow:
  assumes "mammoth_extractRawText L docxBuffer = Inr txt"
  shows "convertDocxToPdf L docxBuffer = convertTxtToPdf L (from_utf8 L txt)"
  using assms by (simp add: convertDocxToPdf_def)

text \<open>
  C1, as amended. Let the lines be the text split at newlines. When \<open>drawText\<close> accepts
  every line, \<open>convertTxtToPdf\<close> returns the saved document \<open>textPages lines\<close>: the
  lines in groups of 51, a page of 595 by 842 for each group, line \<open>j\<close> of a group drawn
  at \<open>(margin, cursorAt j)\<close> with an empty line drawn as a space. It has
  \<open>1 + (n - 1) div 51\<close> pages for \<open>n\<close> lines: 51 lines are all on one page, and of 52
  lines the first 51 are on the first page and the last is alone on the second. When
  \<open>drawText\<close> throws on some line there is no document: the conversion fails with
  \<open>Text to PDF conversion failed\<close>. For every line, \<open>drawLine\<close> adds a page exactly
  when the cursor is below \<open>margin + lineHeight\<close>, draws the line on that new page at
  \<open>pageHeight - margin\<close>, and otherwise draws it on the current page at the cursor;
  the cursor then goes down by \<open>lineHeight\<close>. In doubles \<open>pageHeight - margin\<close> is 792,
  \<open>lineHeight\<close> is 14.4 up to 10^-14 and \<open>margin + lineHeight\<close> is 64.4 up to 10^-12;
  the cursor is not below it after up to 50 lines and is below it after 51.
\<close>

theorem text_reflow_pagination:
  "((\<forall>l \<in> set (split (CHR 0x0A) (toString_utf8 L txtBuffer)).
       drawText_throws L (if l = [] then '' '' else l) = None) \<longrightarrow>
      layoutText L (toString_utf8 L txtBuffer) =
        Inr (textPages (split (CHR 0x0A) (toString_utf8 L txtBuffer))) \<and>
      convertTxtToPdf L txtBuffer =
        Inr (pdf_save L (textPages (split (CHR 0x0A) (toString_utf8 L txtBuffer)))) \<and>
      length (textPages (split (CHR 0x0A) (toString_utf8 L txtBuffer))) =
        1 + (length (split (CHR 0x0A) (toString_utf8 L txtBuffer)) - 1) div 51 \<and>
      (length (split (CHR 0x0A) (toString_utf8 L txtBuffer)) = 51 \<longrightarrow>
         textPages (split (CHR 0x0A) (toString_utf8 L txtBuffer)) =
           [textPage (split (CHR 0x0A) (toString_utf8 L txtBuffer))]) \<and>
      (length (split (CHR 0x0A) (toString_utf8 L txtBuffer)) = 52 \<longrightarrow>
         textPages (split (CHR 0x0A) (toString_utf8 L txtBuffer)) =
           [textPage (take 51 (split (CHR 0x0A) (toString_utf8 L txtBuffer))),
            textPage (drop 51 (split (CHR 0x0A) (toString_utf8 L txtBuffer)))])) \<and>
   ((\<exists>l \<in> set (split (CHR 0x0A) (toString_utf8 L txtBuffer)).
       drawText_throws L (if l = [] then '' '' else l) \<noteq> None) \<longrightarrow>
      convertTxtToPdf L txtBuffer = Inl (Error ''Text to PDF conversion failed'')) \<and>
   drawLine L line st =
     (case drawText_throws L (if line = [] then '' '' else line) of
        Some e \<Rightarrow> Inl e
      | None \<Rightarrow>
          Inr (if yPosition st < fadd margin lineHeight then
                 st\<lparr>pdfDoc := pdfDoc st @
                        [\<lparr>page_size = (pageWidth, pageHeight),
                          ops = [DrawText (if line = [] then '' '' else line) margin
                                   (fsub pageHeight margin) fontSize]\<rparr>],
                    currentPage := length (pdfDoc st),
                    yPosition := fsub (fsub pageHeight margin) lineHeight\<rparr>
               else
                 st\<lparr>pdfDoc := (pdfDoc st)[currentPage st :=
                        (pdfDoc st ! currentPage st)
                          \<lparr>ops := ops (pdfDoc st ! currentPage st) @
                             [DrawText (if line = [] then '' '' else line) margin
                                (yPosition st) fontSize]\<rparr>],
                    yPosition := fsub (yPosition st) lineHeight\<rparr>)) \<and>
   fsub pageHeight margin = 792 \<and>
   \<bar>lineHeight - 72 / 5\<bar> \<le> 1 / 10 ^ 14 \<and>
   \<bar>fadd margin lineHeight - 322 / 5\<bar> \<le> 1 / 10 ^ 12 \<and>
   (j \<le> 51 \<longrightarrow> \<bar>cursorAt j - (792 - 72 / 5 * real j)\<bar> \<le> real j / 10 ^ 12) \<and>
   (j \<le> 50 \<longrightarrow> \<not> cursorAt j < fadd margin lineHeight) \<and>
   cursorAt 51 < fadd margin lineHeight"
proof (intro conjI impI)
  let ?ls = "split (CHR 0x0A) (toString_utf8 L txtBuffer)"
  {
    assume ok: "\<forall>l \<in> set ?ls. drawText_throws L (if l = [] then '' '' else l) = None"
    show "layoutText L (toString_utf8 L txtBuffer) = Inr (textPages ?ls)"
      by (rule layoutText_document [OF ok])
    show "convertTxtToPdf L txtBuffer = Inr (pdf_save L (textPages ?ls))"
      by (rule convertTxtToPdf_document [OF ok])
    show "length (textPages ?ls) = 1 + (length ?ls - 1) div 51"
      by (simp add: textPages_def length_pagesOfLines)
    {
      assume "length ?ls = 51"
      then show "textPages ?ls = [textPage ?ls]" by (rule textPages_51)
    }
    {
      assume "length ?ls = 52"
      then show "textPages ?ls = [textPage (take 51 ?ls), textPage (drop 51 ?ls)]"
        by (rule textPages_52)
    }
  }
  {
    assume "\<exists>l \<in> set ?ls. drawText_throws L (if l = [] then '' '' else l) \<noteq> None"
    then show "convertTxtToPdf L txtBuffer = Inl (Error ''Text to PDF conversion failed'')"
      by (rule convertTxtToPdf_fails)
  }
  show "drawLine L line st =
     (case drawText_throws L (if line = [] then '' '' else line) of
        Some e \<Rightarrow> Inl e
      | None \<Rightarrow>
          Inr (if yPosition st < fadd margin lineHeight then
                 st\<lparr>pdfDoc := pdfDoc st @
                        [\<lparr>page_size = (pageWidth, pageHeight),
                          ops = [DrawText (if line = [] then '' '' else line) margin
                                   (fsub pageHeight margin) fontSize]\<rparr>],
                    currentPage := length (pdfDoc st),
                    yPosition := fsub (fsub pageHeight margin) lineHeight\<rparr>
               else
                 st\<lparr>pdfDoc := (pdfDoc st)[currentPage st :=
                        (pdfDoc st ! currentPage st)
                          \<lparr>ops := ops (pdfDoc st ! currentPage st) @
                             [DrawText (if line = [] then '' '' else line) margin
                                (yPosition st) fontSize]\<rparr>],
                    yPosition := fsub (yPosition st) lineHeight\<rparr>))"
    by (rule drawLine_eq)
  show "fsub pageHeight margin = 792" by (rule start_cursor)
  show "\<bar>lineHeight - 72 / 5\<bar> \<le> 1 / 10 ^ 14"
    using lineHeight_near by (simp add: abs_le_iff)
  show "\<bar>fadd margin lineHeight - 322 / 5\<bar> \<le> 1 / 10 ^ 12"
    using threshold_near by simp
  {
    assume "j \<le> 51"
    from cursorAt_near [OF this]
    show "\<bar>cursorAt j - (792 - 72 / 5 * real j)\<bar> \<le> real j / 10 ^ 12" by simp
  }
  {
    assume "j \<le> 50"
    then show "\<not> cursorAt j < fadd margin lineHeight" by (rule cursor_above_threshold)
  }
  show "cursorAt 51 < fadd margin lineHeight" by (rule cursor_below_threshold)
qed

lemma split_until_separator:
  assumes "sep \<notin> set p"
  shows "split sep (p @ sep # s) = p # split sep s"
  using assms by (induction p) (auto simp: Let_def)

text \<open>
  The theorem at work: 51 empty lines give one page, 52 give two, and a text of three
  lines with an empty one in the middle gives the page with its three drawing
  operations.
\<close>

theorem text_reflow_pagination_witness:
  "convertTxtToPdf (quietLib smallPng) (Buffer (replicate 50 (CHR 0x0A))) =
     Inr (pdf_save (quietLib smallPng) [textPage (replicate 51 [])]) \<and>
   convertTxtToPdf (quietLib smallPng) (Buffer (replicate 51 (CHR 0x0A))) =
     Inr (pdf_save (quietLib smallPng) [textPage (replicate 51 []), textPage [[]]]) \<and>
   convertTxtToPdf (quietLib smallPng) (Buffer (''line1'' @ [CHR 0x0A, CHR 0x0A] @ ''line3'')) =
     Inr (pdf_save (quietLib smallPng)
            [\<lparr>page_size = (595, 842),
              ops = [DrawText ''line1'' 50 792 12,
                     DrawText '' '' 50 (cursorAt 1) 12,
                     DrawText ''line3'' 50 (cursorAt 2) 12]\<rparr>])"
proof -
  let ?L = "quietLib smallPng"
  let ?b1 = "Buffer (replicate 50 (CHR 0x0A))"
  let ?b2 = "Buffer (replicate 51 (CHR 0x0A))"
  let ?b3 = "Buffer (''line1'' @ [CHR 0x0A, CHR 0x0A] @ ''line3'')"
  have quiet: "\<forall>l \<in> set (split (CHR 0x0A) (toString_utf8 ?L b)).
       drawText_throws ?L (if l = [] then '' '' else l) = None" for b
    by (simp add: quietLib_def)
  have l51: "split (CHR 0x0A) (toString_utf8 ?L ?b1) = replicate 51 []"
    by (simp add: quietLib_def split_newlines)
  have l52: "split (CHR 0x0A) (toString_utf8 ?L ?b2) = replicate 52 []"
    by (simp add: quietLib_def split_newlines)
  have l3: "split (CHR 0x0A) (toString_utf8 ?L ?b3) = [''line1'', [], ''line3'']"
    by (simp add: quietLib_def)
  have "convertTxtToPdf ?L ?b1 =
          Inr (pdf_save ?L (textPages (split (CHR 0x0A) (toString_utf8 ?L ?b1)))) \<and>
        (length (split (CHR 0x0A) (toString_utf8 ?L ?b1)) = 51 \<longrightarrow>
           textPages (split (CHR 0x0A) (toString_utf8 ?L ?b1)) =
             [textPage (split (CHR 0x0A) (toString_utf8 ?L ?b1))])"
    using text_reflow_pagination [of ?L ?b1] quiet [of ?b1] by blast
  then have one: "convertTxtToPdf ?L ?b1 = Inr (pdf_save ?L [textPage (replicate 51 [])])"
    unfolding l51 by simp
  have "convertTxtToPdf ?L ?b2 =
          Inr (pdf_save ?L (textPages (split (CHR 0x0A) (toString_utf8 ?L ?b2)))) \<and>
        (length (split (CHR 0x0A) (toString_utf8 ?L ?b2)) = 52 \<longrightarrow>
           textPages (split (CHR 0x0A) (toString_utf8 ?L ?b2)) =
             [textPage (take 51 (split (CHR 0x0A) (toString_utf8 ?L ?b2))),
              textPage (drop 51 (split (CHR 0x0A) (toString_utf8 ?L ?b2)))])"
    using text_reflow_pagination [of ?L ?b2] quiet [of ?b2] by blast
  moreover have "take 51 (replicate 52 ([]::string)) = replicate 51 []"
    "drop 51 (replicate 52 ([]::string)) = [[]]"
    by (simp_all add: numeral_eq_Suc)
  ultimately have two: "convertTxtToPdf ?L ?b2 =
      Inr (pdf_save ?L [textPage (replicate 51 []), textPage [[]]])"
    unfolding l52 by simp
  have "convertTxtToPdf ?L ?b3 =
          Inr (pdf_save ?L (textPages (split (CHR 0x0A) (toString_utf8 ?L ?b3))))"
    using text_reflow_pagination [of ?L ?b3] quiet [of ?b3] by blast
  moreover have "textPages [''line1'', [], ''line3''] =
          [\<lparr>page_size = (595, 842),
              ops = [DrawText ''line1'' 50 792 12,
                     DrawText '' '' 50 (cursorAt 1) 12,
                     DrawText ''line3'' 50 (cursorAt 2) 12]\<rparr>]"
    by (simp add: textPages_def pagesOfLines_short textPage_def drawnLines_def
          pageWidth_def pageHeight_def margin_def fontSize_def cursorAt_0 numeral_2_eq_2)
  ultimately have three: "convertTxtToPdf ?L ?b3 =
     Inr (pdf_save ?L
            [\<lparr>page_size = (595, 842),
              ops = [DrawText ''line1'' 50 792 12,
                     DrawText '' '' 50 (cursorAt 1) 12,
                     DrawText ''line3'' 50 (cursorAt 2) 12]\<rparr>])"
    unfolding l3 by simp
  from one two three show ?thesis by (intro conjI)
qed

text \<open>
  C1 as stated fails: not every input of exactly 51 lines produces a document with one
  page. With a font that cannot encode the first of the 51 lines, \<open>drawText\<close> throws,
  \<open>convertTxtToPdf\<close> fails and the route answers status 500.
\<close>

theorem undrawable_line_gives_no_document:
  "split (CHR 0x0A) (toString_utf8 winAnsiLib
      (Buffer ([CHR 0xE4, CHR 0xB8, CHR 0xAD] @ replicate 50 (CHR 0x0A)))) =
     [CHR 0xE4, CHR 0xB8, CHR 0xAD] # replicate 50 [] \<and>
   length ([CHR 0xE4, CHR 0xB8, CHR 0xAD] # replicate 50 ([]::string)) = 51 \<and>
   convertTxtToPdf winAnsiLib
      (Buffer ([CHR 0xE4, CHR 0xB8, CHR 0xAD] @ replicate 50 (CHR 0x0A))) =
     Inl (Error ''Text to PDF conversion failed'') \<and>
   POST winAnsiLib
      (Some \<lparr>file_name = ''poem.txt'',
             file_data = Buffer ([CHR 0xE4, CHR 0xB8, CHR 0xAD] @ replicate 50 (CHR 0x0A))\<rparr>)
      (Some ''pdf'') =
     Json 500 ''Conversion failed: Text to PDF conversion failed''"
proof -
  let ?b = "Buffer ([CHR 0xE4, CHR 0xB8, CHR 0xAD] @ replicate 50 (CHR 0x0A))"
  have "replicate 50 (CHR 0x0A) = CHR 0x0A # replicate 49 (CHR 0x0A)"
    by (simp add: numeral_eq_Suc)
  then have "split (CHR 0x0A) ([CHR 0xE4, CHR 0xB8, CHR 0xAD] @ replicate 50 (CHR 0x0A)) =
          [CHR 0xE4, CHR 0xB8, CHR 0xAD] # split (CHR 0x0A) (replicate 49 (CHR 0x0A))"
    using split_until_separator [of "CHR 0x0A" "[CHR 0xE4, CHR 0xB8, CHR 0xAD]"
        "replicate 49 (CHR 0x0A)"]
    by simp
  then have ls: "split (CHR 0x0A) (toString_utf8 winAnsiLib ?b) =
     [CHR 0xE4, CHR 0xB8, CHR 0xAD] # replicate 50 []"
    by (simp add: winAnsiLib_def quietLib_def split_newlines)
  have n: "length ([CHR 0xE4, CHR 0xB8, CHR 0xAD] # replicate 50 ([]::string)) = 51"
    by simp
  have "\<exists>l \<in> set (split (CHR 0x0A) (toString_utf8 winAnsiLib ?b)).
          drawText_throws winAnsiLib (if l = [] then '' '' else l) \<noteq> None"
    unfolding ls by (simp add: winAnsiLib_def)
  from convertTxtToPdf_fails [OF this]
  have c: "convertTxtToPdf winAnsiLib ?b = Inl (Error ''Text to PDF conversion failed'')" .
  have "dispatch winAnsiLib \<lparr>file_name = ''poem.txt'', file_data = ?b\<rparr> ''pdf'' =
          Inl (Error ''Text to PDF conversion failed'')"
    using c by (simp add: dispatch_def inputFormat_defs selectPipeline_def arrayIncludes_def)
  then have p: "POST winAnsiLib (Some \<lparr>file_name = ''poem.txt'', file_data = ?b\<rparr>) (Some ''pdf'') =
     Json 500 ''Conversion failed: Text to PDF conversion failed''"
    by (simp add: POST_dispatch)
  from ls n c p show ?thesis by (intro conjI)
qed

section \<open>Properties of image embedding\<close>

lemma toDouble_bounds:
  assumes "0 \<le> x"
  shows "x * (1 - 1 / 2 ^ 53) \<le> toDouble x \<and> toDouble x \<le> x * (1 + 1 / 2 ^ 53)"
proof -
  have "\<bar>toDouble x - x\<bar> \<le> \<bar>x\<bar> / 2 ^ 53" by (rule toDouble_error)
  with assms have "\<bar>toDouble x - x\<bar> \<le> x / 2 ^ 53" by simp
  then show ?thesis by (simp add: algebra_simps, argo)
qed

lemma toDouble_pos:
  assumes "0 < x"
  shows "0 < toDouble x"
proof -
  have "0 < x * (1 - 1 / 2 ^ 53)" using assms by simp
  also have "\<dots> \<le> toDouble x" using toDouble_bounds [of x] assms by simp
  finally show ?thesis .
qed

lemma naturalWidth_pos: "0 < naturalWidth md"
  by (simp add: naturalWidth_def maxWidth_def split: option.splits)

lemma naturalHeight_pos: "0 < naturalHeight md"
  by (simp add: naturalHeight_def maxHeight_def split: option.splits)

text \<open>A side scaled by a factor of at most \<open>toDouble (limit / side)\<close> stays near the limit.\<close>

lemma scaled_side:
  assumes "0 < side" and "0 < limit" and "0 < scale" and "scale \<le> fdiv limit side"
  shows "0 < fmul side scale \<and> fmul side scale \<le> limit * (1 + 1 / 2 ^ 51)"
proof -
  have q: "0 < limit / side" using assms by simp
  have "scale \<le> toDouble (limit / side)" using assms(4) by (simp add: fdiv_def)
  also have "\<dots> \<le> limit / side * (1 + 1 / 2 ^ 53)"
    using toDouble_bounds [of "limit / side"] q by simp
  finally have sc: "scale \<le> limit / side * (1 + 1 / 2 ^ 53)" .
  have "side * scale \<le> side * (limit / side * (1 + 1 / 2 ^ 53))"
    by (rule mult_left_mono [OF sc]) (use assms(1) in simp)
  also have "\<dots> = limit * (1 + 1 / 2 ^ 53)" using assms(1) by simp
  finally have prod: "side * scale \<le> limit * (1 + 1 / 2 ^ 53)" .
  have pos: "0 < side * scale" using assms by simp
  have "fmul side scale \<le> side * scale * (1 + 1 / 2 ^ 53)"
    using toDouble_bounds [of "side * scale"] pos by (simp add: fmul_def)
  also have "\<dots> \<le> limit * (1 + 1 / 2 ^ 53) * (1 + 1 / 2 ^ 53)"
    by (rule mult_right_mono [OF prod]) simp
  also have "\<dots> \<le> limit * (1 + 1 / 2 ^ 51)"
    using assms(2) by (simp add: field_simps)
  finally have upper: "fmul side scale \<le> limit * (1 + 1 / 2 ^ 51)" .
  have "0 < fmul side scale"
    using toDouble_pos [OF pos] by (simp add: fmul_def)
  with upper show ?thesis by simp
qed

lemma drawnSize_near_page:
  "0 < fst (drawnSize md) \<and> fst (drawnSize md) \<le> 595 * (1 + 1 / 2 ^ 51) \<and>
   0 < snd (drawnSize md) \<and> snd (drawnSize md) \<le> 842 * (1 + 1 / 2 ^ 51)"
proof (cases "naturalWidth md > maxWidth \<or> naturalHeight md > maxHeight")
  case True
  let ?w = "naturalWidth md" and ?h = "naturalHeight md"
  let ?s = "min (fdiv maxWidth ?w) (fdiv maxHeight ?h)"
  have w: "0 < ?w" and h: "0 < ?h" by (rule naturalWidth_pos, rule naturalHeight_pos)
  have "0 < fdiv maxWidth ?w" "0 < fdiv maxHeight ?h"
    using w h by (simp_all add: fdiv_def maxWidth_def maxHeight_def toDouble_pos)
  then have s: "0 < ?s" by simp
  have "0 < fmul ?w ?s \<and> fmul ?w ?s \<le> maxWidth * (1 + 1 / 2 ^ 51)"
    by (rule scaled_side [OF w _ s]) (simp_all add: maxWidth_def)
  moreover have "0 < fmul ?h ?s \<and> fmul ?h ?s \<le> maxHeight * (1 + 1 / 2 ^ 51)"
    by (rule scaled_side [OF h _ s]) (simp_all add: maxHeight_def)
  ultimately show ?thesis
    using True by (simp add: drawnSize_def Let_def maxWidth_def maxHeight_def)
next
  case False
  then show ?thesis
    using naturalWidth_pos [of md] naturalHeight_pos [of md]
    by (simp add: drawnSize_def Let_def maxWidth_def maxHeight_def)
qed

lemma embedImagePage_eq:
  "embedImagePage L b md =
     (case embedImage L b (md_format md) of
        Inl e \<Rightarrow> Inl e
      | Inr img \<Rightarrow> Inr (imagePage img (fst (drawnSize md)) (snd (drawnSize md))))"
  by (simp add: embedImagePage_def addPage_def draw_def imagePage_def split_beta
           split: sum.splits)

lemma convertImageToPdf_eq:
  "convertImageToPdf L b =
     (case sharp_metadata L b of
        Inl e \<Rightarrow> Inl e
      | Inr md \<Rightarrow>
          (case embedImage L b (md_format md) of
             Inl e \<Rightarrow> Inl e
           | Inr img \<Rightarrow>
               Inr (pdf_save L (imagePage img (fst (drawnSize md)) (snd (drawnSize md))))))"
  by (simp add: convertImageToPdf_def embedImagePage_eq split: sum.splits)

lemma embedImage_eq:
  "embedImage L b fmt =
     (if fmt = Some ''jpeg'' \<or> fmt = Some ''jpg'' then
        (case embedJpg_throws L b of Some e \<Rightarrow> Inl e | None \<Rightarrow> Inr (EmbeddedJpg b))
      else if fmt = Some ''png'' then
        (case embedPng_throws L b of Some e \<Rightarrow> Inl e | None \<Rightarrow> Inr (EmbeddedPng b))
      else
        (case sharp_toBuffer L (FromBuffer b) Png of
           Inl e \<Rightarrow> Inl e
         | Inr p \<Rightarrow>
             (case embedPng_throws L p of Some e \<Rightarrow> Inl e | None \<Rightarrow> Inr (EmbeddedPng p))))"
  by (simp add: embedImage_def embedJpg_def embedPng_def split: sum.splits)

lemma toDouble_421: "toDouble 421 = 421"
  using toDouble_scaled [of 44 421] by (simp add: roundEven_def)

lemma toDouble_842: "toDouble 842 = 842"
  using toDouble_scaled [of 43 842] by (simp add: roundEven_def)

lemma scale_1000_2000:
  "fdiv 595 1000 = 5359283556570890 / 2 ^ 53 \<and> fdiv 842 2000 = 7584061772491915 / 2 ^ 54"
proof
  have "fdiv 595 1000 = toDouble (119 / 200)" by (simp add: fdiv_def)
  also have "\<dots> = of_int (roundEven (119 / 200 * 2 ^ 53)) / 2 ^ 53"
    by (rule toDouble_scaled) simp_all
  also have "\<dots> = 5359283556570890 / 2 ^ 53" by (simp add: roundEven_def)
  finally show "fdiv 595 1000 = 5359283556570890 / 2 ^ 53" .
  have "fdiv 842 2000 = toDouble (421 / 1000)" by (simp add: fdiv_def)
  also have "\<dots> = of_int (roundEven (421 / 1000 * 2 ^ 54)) / 2 ^ 54"
    by (rule toDouble_scaled) simp_all
  also have "\<dots> = 7584061772491915 / 2 ^ 54" by (simp add: roundEven_def)
  finally show "fdiv 842 2000 = 7584061772491915 / 2 ^ 54" .
qed

lemma drawn_1000_2000:
  assumes "md_width md = Some 1000" and "md_height md = Some 2000"
  shows "drawnSize md = (421, 842)"
proof -
  have nat: "naturalWidth md = 1000" "naturalHeight md = 2000"
    using assms by (simp_all add: naturalWidth_def naturalHeight_def)
  have scale: "min (fdiv maxWidth 1000) (fdiv maxHeight 2000) = 7584061772491915 / 2 ^ 54"
    using scale_1000_2000 by (simp add: maxWidth_def maxHeight_def)
  have "fmul 1000 (7584061772491915 / 2 ^ 54) = toDouble (948007721561489375 / 2251799813685248)"
    by (simp add: fmul_def)
  also have "\<dots> = of_int (roundEven (948007721561489375 / 2251799813685248 * 2 ^ 44)) / 2 ^ 44"
    by (rule toDouble_scaled) simp_all
  also have "\<dots> = 421" by (simp add: roundEven_def)
  finally have w: "fmul 1000 (7584061772491915 / 2 ^ 54) = 421" .
  have "fmul 2000 (7584061772491915 / 2 ^ 54) = toDouble (948007721561489375 / 1125899906842624)"
    by (simp add: fmul_def)
  also have "\<dots> = of_int (roundEven (948007721561489375 / 1125899906842624 * 2 ^ 43)) / 2 ^ 43"
    by (rule toDouble_scaled) simp_all
  also have "\<dots> = 842" by (simp add: roundEven_def)
  finally have h: "fmul 2000 (7584061772491915 / 2 ^ 54) = 842" .
  have "drawnSize md =
          (fmul 1000 (min (fdiv maxWidth 1000) (fdiv maxHeight 2000)),
           fmul 2000 (min (fdiv maxWidth 1000) (fdiv maxHeight 2000)))"
    by (simp add: drawnSize_def Let_def nat) (simp add: maxWidth_def)
  then show ?thesis
    by (simp only: scale w h)
qed

lemma drawnSize_scaled:
  assumes "md_width md = Some w" and "md_height md = Some h" and "0 < w" and "0 < h"
    and "595 < w \<or> 842 < h"
  shows "drawnSize md =
           (fmul (real w) (min (fdiv 595 (real w)) (fdiv 842 (real h))),
            fmul (real h) (min (fdiv 595 (real w)) (fdiv 842 (real h))))"
  using assms
  by (auto simp: drawnSize_def naturalWidth_def naturalHeight_def maxWidth_def maxHeight_def
        Let_def)

lemma drawnSize_unscaled:
  assumes "md_width md = Some w" and "md_height md = Some h" and "0 < w" and "0 < h"
    and "w \<le> 595" and "h \<le> 842"
  shows "drawnSize md = (real w, real h)"
  using assms
  by (simp add: drawnSize_def naturalWidth_def naturalHeight_def maxWidth_def maxHeight_def
        Let_def)

lemma drawnSize_absent_width:
  assumes "md_width md = None"
  shows "drawnSize md = drawnSize (md\<lparr>md_width := Some 595\<rparr>)"
  using assms
  by (simp add: drawnSize_def naturalWidth_def naturalHeight_def maxWidth_def Let_def)

lemma drawnSize_absent_height:
  assumes "md_height md = None"
  shows "drawnSize md = drawnSize (md\<lparr>md_height := Some 842\<rparr>)"
  using assms
  by (simp add: drawnSize_def naturalWidth_def naturalHeight_def maxHeight_def Let_def)

lemma scale_0_421:
  "min (fdiv 595 1000) (fdiv 842 2000) = toDouble 0.421 \<and>
   toDouble 0.421 = 7584061772491915 / 2 ^ 54 \<and>
   \<bar>toDouble 0.421 - 0.421\<bar> \<le> 1 / 2 ^ 55"
proof -
  have a: "fdiv 842 2000 = toDouble 0.421" by (simp add: fdiv_def)
  have b: "toDouble 0.421 = 7584061772491915 / 2 ^ 54"
    using scale_1000_2000 a by simp
  have "min (fdiv 595 1000) (fdiv 842 2000) = fdiv 842 2000"
    using scale_1000_2000 by simp
  with a b show ?thesis by simp
qed

text \<open>
  C3. In \<open>convertImageToPdf\<close>, for an image whose metadata give the width \<open>w\<close> and the
  height \<open>h\<close>: if \<open>w\<close> exceeds 595 or \<open>h\<close> exceeds 842, the document returned is the
  page with the image drawn at \<open>w\<close> and \<open>h\<close> each multiplied by
  \<open>min (595 / w) (842 / h)\<close>, every operation rounded to a double as the source
  computes it; otherwise it is the page with the image drawn at \<open>w\<close> by \<open>h\<close>. When the
  metadata have no width the result is that for the width 595, and when they have no
  height that for the height 842. A 1000 by 2000 image is drawn at exactly 421 by 842;
  the scale is the double nearest to 0.421.
\<close>

theorem image_scaling:
  "(sharp_metadata L b = Inr md \<and> md_width md = Some w \<and> md_height md = Some h \<and>
    0 < w \<and> 0 < h \<and> (595 < w \<or> 842 < h) \<longrightarrow>
      convertImageToPdf L b =
        (case embedImage L b (md_format md) of
           Inl e \<Rightarrow> Inl e
         | Inr img \<Rightarrow>
             Inr (pdf_save L
                    (imagePage img
                       (fmul (real w) (min (fdiv 595 (real w)) (fdiv 842 (real h))))
                       (fmul (real h) (min (fdiv 595 (real w)) (fdiv 842 (real h)))))))) \<and>
   (sharp_metadata L b = Inr md \<and> md_width md = Some w \<and> md_height md = Some h \<and>
    0 < w \<and> 0 < h \<and> w \<le> 595 \<and> h \<le> 842 \<longrightarrow>
      convertImageToPdf L b =
        (case embedImage L b (md_format md) of
           Inl e \<Rightarrow> Inl e
         | Inr img \<Rightarrow> Inr (pdf_save L (imagePage img (real w) (real h))))) \<and>
   (sharp_metadata L b = Inr md \<and> md_width md = None \<longrightarrow>
      convertImageToPdf L b =
        (case embedImage L b (md_format md) of
           Inl e \<Rightarrow> Inl e
         | Inr img \<Rightarrow>
             Inr (pdf_save L
                    (imagePage img (fst (drawnSize (md\<lparr>md_width := Some 595\<rparr>)))
                       (snd (drawnSize (md\<lparr>md_width := Some 595\<rparr>))))))) \<and>
   (sharp_metadata L b = Inr md \<and> md_height md = None \<longrightarrow>
      convertImageToPdf L b =
        (case embedImage L b (md_format md) of
           Inl e \<Rightarrow> Inl e
         | Inr img \<Rightarrow>
             Inr (pdf_save L
                    (imagePage img (fst (drawnSize (md\<lparr>md_height := Some 842\<rparr>)))
                       (snd (drawnSize (md\<lparr>md_height := Some 842\<rparr>))))))) \<and>
   (sharp_metadata L b = Inr md \<and> md_width md = Some 1000 \<and> md_height md = Some 2000 \<longrightarrow>
      convertImageToPdf L b =
        (case embedImage L b (md_format md) of
           Inl e \<Rightarrow> Inl e
         | Inr img \<Rightarrow> Inr (pdf_save L (imagePage img 421 842)))) \<and>
   min (fdiv 595 1000) (fdiv 842 2000) = toDouble 0.421 \<and>
   \<bar>toDouble 0.421 - 0.421\<bar> \<le> 1 / 2 ^ 55"
proof (intro conjI impI)
  assume a: "sharp_metadata L b = Inr md \<and> md_width md = Some w \<and> md_height md = Some h \<and>
    0 < w \<and> 0 < h \<and> (595 < w \<or> 842 < h)"
  then have "drawnSize md =
           (fmul (real w) (min (fdiv 595 (real w)) (fdiv 842 (real h))),
            fmul (real h) (min (fdiv 595 (real w)) (fdiv 842 (real h))))"
    by (intro drawnSize_scaled) simp_all
  with a show "convertImageToPdf L b =
        (case embedImage L b (md_format md) of
           Inl e \<Rightarrow> Inl e
         | Inr img \<Rightarrow>
             Inr (pdf_save L
                    (imagePage img
                       (fmul (real w) (min (fdiv 595 (real w)) (fdiv 842 (real h))))
                       (fmul (real h) (min (fdiv 595 (real w)) (fdiv 842 (real h)))))))"
    by (simp add: convertImageToPdf_eq split: sum.splits)
next
  assume a: "sharp_metadata L b = Inr md \<and> md_width md = Some w \<and> md_height md = Some h \<and>
    0 < w \<and> 0 < h \<and> w \<le> 595 \<and> h \<le> 842"
  then have "drawnSize md = (real w, real h)"
    by (intro drawnSize_unscaled) simp_all
  with a show "convertImageToPdf L b =
        (case embedImage L b (md_format md) of
           Inl e \<Rightarrow> Inl e
         | Inr img \<Rightarrow> Inr (pdf_save L (imagePage img (real w) (real h))))"
    by (simp add: convertImageToPdf_eq split: sum.splits)
next
  assume a: "sharp_metadata L b = Inr md \<and> md_width md = None"
  then have "drawnSize md = drawnSize (md\<lparr>md_width := Some 595\<rparr>)"
    by (intro drawnSize_absent_width) simp
  with a show "convertImageToPdf L b =
        (case embedImage L b (md_format md) of
           Inl e \<Rightarrow> Inl e
         | Inr img \<Rightarrow>
             Inr (pdf_save L
                    (imagePage img (fst (drawnSize (md\<lparr>md_width := Some 595\<rparr>)))
                       (snd (drawnSize (md\<lparr>md_width := Some 595\<rparr>))))))"
    by (simp add: convertImageToPdf_eq split: sum.splits)
next
  assume a: "sharp_metadata L b = Inr md \<and> md_height md = None"
  then have "drawnSize md = drawnSize (md\<lparr>md_height := Some 842\<rparr>)"
    by (intro drawnSize_absent_height) simp
  with a show "convertImageToPdf L b =
        (case embedImage L b (md_format md) of
           Inl e \<Rightarrow> Inl e
         | Inr img \<Rightarrow>
             Inr (pdf_save L
                    (imagePage img (fst (drawnSize (md\<lparr>md_height := Some 842\<rparr>)))
                       (snd (drawnSize (md\<lparr>md_height := Some 842\<rparr>))))))"
    by (simp add: convertImageToPdf_eq split: sum.splits)
next
  assume a: "sharp_metadata L b = Inr md \<and> md_width md = Some 1000 \<and> md_height md = Some 2000"
  then have "drawnSize md = (421, 842)"
    by (intro drawn_1000_2000) simp_all
  with a show "convertImageToPdf L b =
        (case embedImage L b (md_format md) of
           Inl e \<Rightarrow> Inl e
         | Inr img \<Rightarrow> Inr (pdf_save L (imagePage img 421 842)))"
    by (simp add: convertImageToPdf_eq split: sum.splits)
next
  show "min (fdiv 595 1000) (fdiv 842 2000) = toDouble 0.421"
    using scale_0_421 by blast
  show "\<bar>toDouble 0.421 - 0.421\<bar> \<le> 1 / 2 ^ 55"
    using scale_0_421 by blast
qed

text \<open>
  The theorem at work: a 1000 by 2000 JPEG is drawn at 421 by 842, a 100 by 100 PNG at
  100 by 100.
\<close>

theorem image_scaling_witness:
  "convertImageToPdf (quietLib tallJpeg) (Buffer ''x'') =
     Inr (pdf_save (quietLib tallJpeg)
            [\<lparr>page_size = (421, 842),
              ops = [DrawImage (EmbeddedJpg (Buffer ''x'')) 0 0 421 842]\<rparr>]) \<and>
   convertImageToPdf (quietLib smallPng) (Buffer ''x'') =
     Inr (pdf_save (quietLib smallPng)
            [\<lparr>page_size = (100, 100),
              ops = [DrawImage (EmbeddedPng (Buffer ''x'')) 0 0 100 100]\<rparr>])"
proof -
  have tall: "sharp_metadata (quietLib tallJpeg) (Buffer ''x'') = Inr tallJpeg \<and>
      md_width tallJpeg = Some 1000 \<and> md_height tallJpeg = Some 2000"
    by (simp add: quietLib_def tallJpeg_def)
  have e1: "embedImage (quietLib tallJpeg) (Buffer ''x'') (md_format tallJpeg) =
      Inr (EmbeddedJpg (Buffer ''x''))"
    by (simp add: embedImage_def embedJpg_def quietLib_def tallJpeg_def)
  have "convertImageToPdf (quietLib tallJpeg) (Buffer ''x'') =
        (case embedImage (quietLib tallJpeg) (Buffer ''x'') (md_format tallJpeg) of
           Inl e \<Rightarrow> Inl e
         | Inr img \<Rightarrow> Inr (pdf_save (quietLib tallJpeg) (imagePage img 421 842)))"
    using image_scaling [of "quietLib tallJpeg" "Buffer ''x''" tallJpeg] tall by blast
  then have one: "convertImageToPdf (quietLib tallJpeg) (Buffer ''x'') =
     Inr (pdf_save (quietLib tallJpeg)
            [\<lparr>page_size = (421, 842),
              ops = [DrawImage (EmbeddedJpg (Buffer ''x'')) 0 0 421 842]\<rparr>])"
    by (simp only: e1 sum.case imagePage_def)
  have small: "sharp_metadata (quietLib smallPng) (Buffer ''x'') = Inr smallPng \<and>
      md_width smallPng = Some 100 \<and> md_height smallPng = Some 100 \<and>
      0 < (100::nat) \<and> 0 < (100::nat) \<and> (100::nat) \<le> 595 \<and> (100::nat) \<le> 842"
    by (simp add: quietLib_def smallPng_def)
  have e2: "embedImage (quietLib smallPng) (Buffer ''x'') (md_format smallPng) =
      Inr (EmbeddedPng (Buffer ''x''))"
    by (simp add: embedImage_def embedPng_def quietLib_def smallPng_def)
  have "convertImageToPdf (quietLib smallPng) (Buffer ''x'') =
        (case embedImage (quietLib smallPng) (Buffer ''x'') (md_format smallPng) of
           Inl e \<Rightarrow> Inl e
         | Inr img \<Rightarrow>
             Inr (pdf_save (quietLib smallPng) (imagePage img (real 100) (real 100))))"
    using image_scaling [of "quietLib smallPng" "Buffer ''x''" smallPng 100 100] small
    by blast
  then have two: "convertImageToPdf (quietLib smallPng) (Buffer ''x'') =
     Inr (pdf_save (quietLib smallPng)
            [\<lparr>page_size = (100, 100),
              ops = [DrawImage (EmbeddedPng (Buffer ''x'')) 0 0 100 100]\<rparr>])"
    by (simp add: e2 imagePage_def)
  from one two show ?thesis ..
qed

text \<open>
  C2, as amended. \<open>convertImageToPdf\<close> fails when the metadata cannot be read or when
  the one embedding call made for the image's format throws (\<open>embedJpg\<close> on the input
  for jpeg and jpg, \<open>embedPng\<close> on the input for png, and for any other format the
  transcoding to PNG followed by \<open>embedPng\<close> on its result). Otherwise it returns the
  saved document of exactly one page, whose size is the size the image is drawn at and
  whose only operation draws the embedded input at the origin \<open>(0, 0)\<close> with that size.
  The size is the natural size when that is within 595 by 842; in every case each side
  is positive and at most the page's side of 595 or 842 times \<open>1 + 2^-51\<close>, the room
  the two roundings of the scaling take.
\<close>

theorem image_page_has_drawn_size:
  "convertImageToPdf L b =
     (case sharp_metadata L b of
        Inl e \<Rightarrow> Inl e
      | Inr md \<Rightarrow>
          (case embedImage L b (md_format md) of
             Inl e \<Rightarrow> Inl e
           | Inr img \<Rightarrow>
               Inr (pdf_save L
                      [\<lparr>page_size = drawnSize md,
                        ops = [DrawImage img 0 0 (fst (drawnSize md)) (snd (drawnSize md))]\<rparr>]))) \<and>
   embedImage L b fmt =
     (if fmt = Some ''jpeg'' \<or> fmt = Some ''jpg'' then
        (case embedJpg_throws L b of Some e \<Rightarrow> Inl e | None \<Rightarrow> Inr (EmbeddedJpg b))
      else if fmt = Some ''png'' then
        (case embedPng_throws L b of Some e \<Rightarrow> Inl e | None \<Rightarrow> Inr (EmbeddedPng b))
      else
        (case sharp_toBuffer L (FromBuffer b) Png of
           Inl e \<Rightarrow> Inl e
         | Inr p \<Rightarrow>
             (case embedPng_throws L p of Some e \<Rightarrow> Inl e | None \<Rightarrow> Inr (EmbeddedPng p)))) \<and>
   0 < fst (drawnSize md) \<and> fst (drawnSize md) \<le> 595 * (1 + 1 / 2 ^ 51) \<and>
   0 < snd (drawnSize md) \<and> snd (drawnSize md) \<le> 842 * (1 + 1 / 2 ^ 51) \<and>
   (naturalWidth md \<le> 595 \<and> naturalHeight md \<le> 842 \<longrightarrow>
      drawnSize md = (naturalWidth md, naturalHeight md))"
proof (intro conjI impI)
  show "convertImageToPdf L b =
     (case sharp_metadata L b of
        Inl e \<Rightarrow> Inl e
      | Inr md \<Rightarrow>
          (case embedImage L b (md_format md) of
             Inl e \<Rightarrow> Inl e
           | Inr img \<Rightarrow>
               Inr (pdf_save L
                      [\<lparr>page_size = drawnSize md,
                        ops = [DrawImage img 0 0 (fst (drawnSize md)) (snd (drawnSize md))]\<rparr>])))"
    by (simp add: convertImageToPdf_eq imagePage_def split: sum.splits)
  show "embedImage L b fmt =
     (if fmt = Some ''jpeg'' \<or> fmt = Some ''jpg'' then
        (case embedJpg_throws L b of Some e \<Rightarrow> Inl e | None \<Rightarrow> Inr (EmbeddedJpg b))
      else if fmt = Some ''png'' then
        (case embedPng_throws L b of Some e \<Rightarrow> Inl e | None \<Rightarrow> Inr (EmbeddedPng b))
      else
        (case sharp_toBuffer L (FromBuffer b) Png of
           Inl e \<Rightarrow> Inl e
         | Inr p \<Rightarrow>
             (case embedPng_throws L p of Some e \<Rightarrow> Inl e | None \<Rightarrow> Inr (EmbeddedPng p))))"
    by (rule embedImage_eq)
  show "0 < fst (drawnSize md)" using drawnSize_near_page by blast
  show "fst (drawnSize md) \<le> 595 * (1 + 1 / 2 ^ 51)" using drawnSize_near_page by blast
  show "0 < snd (drawnSize md)" using drawnSize_near_page by blast
  show "snd (drawnSize md) \<le> 842 * (1 + 1 / 2 ^ 51)" using drawnSize_near_page by blast
next
  assume "naturalWidth md \<le> 595 \<and> naturalHeight md \<le> 842"
  then show "drawnSize md = (naturalWidth md, naturalHeight md)"
    by (simp add: drawnSize_def Let_def maxWidth_def maxHeight_def)
qed

text \<open>The theorem at work: a 100 by 100 PNG gives one page of 100 by 100.\<close>

theorem image_page_has_drawn_size_witness:
  "convertImageToPdf (quietLib smallPng) (Buffer ''photo'') =
     Inr (pdf_save (quietLib smallPng)
            [\<lparr>page_size = (100, 100),
              ops = [DrawImage (EmbeddedPng (Buffer ''photo'')) 0 0 100 100]\<rparr>])"
proof -
  let ?L = "quietLib smallPng" and ?b = "Buffer ''photo''"
  have nat: "naturalWidth smallPng \<le> 595 \<and> naturalHeight smallPng \<le> 842"
    by (simp add: naturalWidth_def naturalHeight_def smallPng_def)
  have size: "drawnSize smallPng = (100, 100)"
    using image_page_has_drawn_size [of ?L ?b _ smallPng] nat
    by (simp add: naturalWidth_def naturalHeight_def smallPng_def)
  have md: "sharp_metadata ?L ?b = Inr smallPng" by (simp add: quietLib_def)
  have img: "embedImage ?L ?b (md_format smallPng) = Inr (EmbeddedPng ?b)"
    using image_page_has_drawn_size [of ?L ?b "md_format smallPng"]
    by (simp add: quietLib_def smallPng_def)
  have "convertImageToPdf ?L ?b =
     (case sharp_metadata ?L ?b of
        Inl e \<Rightarrow> Inl e
      | Inr md \<Rightarrow>
          (case embedImage ?L ?b (md_format md) of
             Inl e \<Rightarrow> Inl e
           | Inr img \<Rightarrow>
               Inr (pdf_save ?L
                      [\<lparr>page_size = drawnSize md,
                        ops = [DrawImage img 0 0 (fst (drawnSize md)) (snd (drawnSize md))]\<rparr>])))"
    using image_page_has_drawn_size [of ?L ?b] by blast
  then show ?thesis
    by (simp add: md img size)
qed

text \<open>
  C2 as stated fails: the page is not sized to the box of 595 by 842. A 100 by 100 PNG
  gives a page of 100 by 100.
\<close>

theorem image_page_not_page_sized:
  "sharp_metadata (quietLib smallPng) (Buffer ''x'') = Inr smallPng \<and>
   embedImagePage (quietLib smallPng) (Buffer ''x'') smallPng =
     Inr [\<lparr>page_size = (100, 100),
           ops = [DrawImage (EmbeddedPng (Buffer ''x'')) 0 0 100 100]\<rparr>] \<and>
   (100 :: real, 100 :: real) \<noteq> (595, 842)"
  by (simp add: quietLib_def smallPng_def embedImagePage_def embedImage_def drawnSize_def
        naturalWidth_def naturalHeight_def maxWidth_def maxHeight_def addPage_def draw_def
        embedPng_def)

text \<open>
  After rounding, a side can exceed the page's by one step of the double grid: a 300 by
  1033 image is drawn 842 + 2^-43 high.
\<close>

lemma drawn_300_1033:
  assumes "md_width md = Some 300" and "md_height md = Some 1033"
  shows "snd (drawnSize md) = 842 + 1 / 2 ^ 43"
proof -
  have nat: "naturalWidth md = 300" "naturalHeight md = 1033"
    using assms by (simp_all add: naturalWidth_def naturalHeight_def)
  have "fdiv 842 1033 = toDouble (842 / 1033)" by (simp add: fdiv_def)
  also have "\<dots> = of_int (roundEven (842 / 1033 * 2 ^ 53)) / 2 ^ 53"
    by (rule toDouble_scaled) simp_all
  also have "\<dots> = 7341782935616569 / 2 ^ 53" by (simp add: roundEven_def)
  finally have sh: "fdiv 842 1033 = 7341782935616569 / 2 ^ 53" .
  have "fdiv 595 300 = toDouble (119 / 60)" by (simp add: fdiv_def)
  also have "\<dots> = of_int (roundEven (119 / 60 * 2 ^ 52)) / 2 ^ 52"
    by (rule toDouble_scaled) simp_all
  finally have "fdiv 842 1033 \<le> fdiv 595 300"
    by (simp add: sh roundEven_def)
  then have scale: "min (fdiv maxWidth 300) (fdiv maxHeight 1033) = 7341782935616569 / 2 ^ 53"
    by (simp add: maxWidth_def maxHeight_def sh)
  have "fmul 1033 (7341782935616569 / 2 ^ 53) =
          toDouble (1033 * 7341782935616569 / 9007199254740992)"
    by (simp add: fmul_def)
  also have "\<dots> = of_int (roundEven (1033 * 7341782935616569 / 9007199254740992 * 2 ^ 43)) / 2 ^ 43"
    by (rule toDouble_scaled) simp_all
  also have "\<dots> = 842 + 1 / 2 ^ 43" by (simp add: roundEven_def)
  finally have h: "fmul 1033 (7341782935616569 / 2 ^ 53) = 842 + 1 / 2 ^ 43" .
  have "snd (drawnSize md) = fmul 1033 (min (fdiv maxWidth 300) (fdiv maxHeight 1033))"
    by (simp add: drawnSize_def Let_def nat) (simp add: maxHeight_def)
  then show ?thesis
    by (simp only: scale h)
qed

section \<open>Properties of the client-side conversion\<close>

lemma convertFile_local:
  assumes "getFileExtension (file_name f) \<in> set [''png'', ''jpg'', ''jpeg'']"
  shows "convertFile (file_name f) out =
           (if out = ''pdf'' then ConvertImageToPdf (file_name f)
            else ConvertImageFormat (file_name f) out)"
  using assms by (auto simp: convertFile_def)

lemma convertFile_server:
  assumes "getFileExtension (file_name f) \<notin> set [''png'', ''jpg'', ''jpeg'']"
  shows "convertFile (file_name f) out = FetchApiConvert (file_name f) out"
  using assms by (simp add: convertFile_def)

lemma convertedBlob_local:
  assumes "getFileExtension (file_name f) \<in> set [''png'', ''jpg'', ''jpeg'']"
  shows "convertedBlob B f out =
           (if out = ''pdf'' then imageToPdf_in_browser B f
            else imageFormat_in_browser B f out)"
  by (simp add: convertedBlob_def convertFile_local [OF assms])

lemma convertedBlob_server:
  assumes "getFileExtension (file_name f) \<notin> set [''png'', ''jpg'', ''jpeg'']"
  shows "convertedBlob B f out =
           (case fetch_api_convert B f out of
              Inl e \<Rightarrow> Inl e
            | Inr response \<Rightarrow>
                if response_ok response then Inr (response_blob response)
                else Inl (Error (''Server conversion failed: '' @ response_statusText response)))"
  by (simp add: convertedBlob_def convertFile_server [OF assms] split: sum.splits)

lemma convertEach_succeeds:
  assumes "map (\<lambda>f. convertedBlob B f out) files = map Inr blobs"
  shows "convertEach B files out s =
           s\<lparr>calls := calls s @ map (\<lambda>f. convertFile (file_name f) out) files,
             convertedFiles :=
               convertedFiles s @ zip (map (\<lambda>f. downloadName f out) files) blobs\<rparr>"
  using assms
proof (induction files arbitrary: s blobs)
  case Nil
  then show ?case by simp
next
  case (Cons f files)
  from Cons.prems obtain b bs where
    blobs: "blobs = b # bs" and b: "convertedBlob B f out = Inr b"
    and bs: "map (\<lambda>f. convertedBlob B f out) files = map Inr bs"
    by (cases blobs) auto
  show ?case
    by (simp add: blobs b Cons.IH [OF bs] Let_def)
qed

lemma convertEach_fails:
  assumes "map (\<lambda>f. convertedBlob B f out) before = map Inr blobs"
    and "convertedBlob B f out = Inl e"
  shows "convertEach B (before @ f # rest) out s =
           s\<lparr>calls := calls s @ map (\<lambda>f. convertFile (file_name f) out) (before @ [f]),
             convertedFiles :=
               convertedFiles s @ zip (map (\<lambda>f. downloadName f out) before) blobs,
             errorShown := message e\<rparr>"
  using assms(1)
proof (induction before arbitrary: s blobs)
  case Nil
  then show ?case by (simp add: assms(2) Let_def)
next
  case (Cons g before)
  from Cons.prems obtain b bs where
    blobs: "blobs = b # bs" and b: "convertedBlob B g out = Inr b"
    and bs: "map (\<lambda>f. convertedBlob B f out) before = map Inr bs"
    by (cases blobs) auto
  show ?case
    by (simp add: blobs b Cons.IH [OF bs] Let_def)
qed

text \<open>
  C8, as amended. For a file whose format is png, jpg or jpeg, \<open>handleConvert\<close> calls
  the in-browser conversion (to PDF when the output format is \<open>pdf\<close>, to the other
  image format otherwise), makes no request, and the blob is what that conversion
  resolves with. For a file of any other format, the image formats gif, bmp, webp and
  svg included, it requests \<open>/api/convert\<close>, and the blob is that of the response when
  the response is ok. When the conversion of every file yields a blob,
  \<open>handleConvert\<close> makes the call of each file, in order, and offers each blob for
  download under the file's name with the output format as extension. When the
  conversion of a file fails (an image the browser cannot decode, a request that
  fails, a response that is not ok), the calls are those of the files up to that one,
  only the files before it are offered for download, and the error is shown. With no
  file or no output format nothing is done.
\<close>

theorem only_png_jpg_jpeg_convert_locally:
  "(getFileExtension (file_name f) \<in> set [''png'', ''jpg'', ''jpeg''] \<longrightarrow>
      convertFile (file_name f) out =
        (if out = ''pdf'' then ConvertImageToPdf (file_name f)
         else ConvertImageFormat (file_name f) out) \<and>
      \<not> is_fetch (convertFile (file_name f) out) \<and>
      convertedBlob B f out =
        (if out = ''pdf'' then imageToPdf_in_browser B f
         else imageFormat_in_browser B f out)) \<and>
   (getFileExtension (file_name f) \<notin> set [''png'', ''jpg'', ''jpeg''] \<longrightarrow>
      convertFile (file_name f) out = FetchApiConvert (file_name f) out \<and>
      convertedBlob B f out =
        (case fetch_api_convert B f out of
           Inl e \<Rightarrow> Inl e
         | Inr response \<Rightarrow>
             if response_ok response then Inr (response_blob response)
             else Inl (Error (''Server conversion failed: '' @
                              response_statusText response)))) \<and>
   (files \<noteq> [] \<and> out \<noteq> [] \<and>
    map (\<lambda>f. convertedBlob B f out) files = map Inr blobs \<longrightarrow>
      handleConvert B files out s =
        s\<lparr>errorShown := '''',
          calls := calls s @ map (\<lambda>f. convertFile (file_name f) out) files,
          convertedFiles :=
            convertedFiles s @ zip (map (\<lambda>f. downloadName f out) files) blobs\<rparr>) \<and>
   (out \<noteq> [] \<and> map (\<lambda>f. convertedBlob B f out) before = map Inr blobs \<and>
    convertedBlob B g out = Inl e \<longrightarrow>
      handleConvert B (before @ g # rest) out s =
        s\<lparr>errorShown := message e,
          calls := calls s @ map (\<lambda>f. convertFile (file_name f) out) (before @ [g]),
          convertedFiles :=
            convertedFiles s @ zip (map (\<lambda>f. downloadName f out) before) blobs\<rparr>) \<and>
   (files = [] \<or> out = [] \<longrightarrow> handleConvert B files out s = s)"
proof (intro conjI impI)
  assume a: "getFileExtension (file_name f) \<in> set [''png'', ''jpg'', ''jpeg'']"
  show "convertFile (file_name f) out =
        (if out = ''pdf'' then ConvertImageToPdf (file_name f)
         else ConvertImageFormat (file_name f) out)"
    by (rule convertFile_local [OF a])
  then show "\<not> is_fetch (convertFile (file_name f) out)" by simp
  show "convertedBlob B f out =
        (if out = ''pdf'' then imageToPdf_in_browser B f
         else imageFormat_in_browser B f out)"
    by (rule convertedBlob_local [OF a])
next
  assume a: "getFileExtension (file_name f) \<notin> set [''png'', ''jpg'', ''jpeg'']"
  show "convertFile (file_name f) out = FetchApiConvert (file_name f) out"
    by (rule convertFile_server [OF a])
  show "convertedBlob B f out =
        (case fetch_api_convert B f out of
           Inl e \<Rightarrow> Inl e
         | Inr response \<Rightarrow>
             if response_ok response then Inr (response_blob response)
             else Inl (Error (''Server conversion failed: '' @
                              response_statusText response)))"
    by (rule convertedBlob_server [OF a])
next
  assume a: "files \<noteq> [] \<and> out \<noteq> [] \<and>
    map (\<lambda>f. convertedBlob B f out) files = map Inr blobs"
  then have "map (\<lambda>f. convertedBlob B f out) files = map Inr blobs" by simp
  from convertEach_succeeds [OF this] a
  show "handleConvert B files out s =
        s\<lparr>errorShown := '''',
          calls := calls s @ map (\<lambda>f. convertFile (file_name f) out) files,
          convertedFiles :=
            convertedFiles s @ zip (map (\<lambda>f. downloadName f out) files) blobs\<rparr>"
    by (simp add: handleConvert_def)
next
  assume a: "out \<noteq> [] \<and> map (\<lambda>f. convertedBlob B f out) before = map Inr blobs \<and>
    convertedBlob B g out = Inl e"
  then have b: "map (\<lambda>f. convertedBlob B f out) before = map Inr blobs"
    and c: "convertedBlob B g out = Inl e" by simp_all
  from convertEach_fails [OF b c] a
  show "handleConvert B (before @ g # rest) out s =
        s\<lparr>errorShown := message e,
          calls := calls s @ map (\<lambda>f. convertFile (file_name f) out) (before @ [g]),
          convertedFiles :=
            convertedFiles s @ zip (map (\<lambda>f. downloadName f out) before) blobs\<rparr>"
    by (simp add: handleConvert_def)
next
  assume "files = [] \<or> out = []"
  then show "handleConvert B files out s = s"
    by (auto simp: handleConvert_def)
qed

lemma extension_photoPng: "getFileExtension (file_name photoPng) = ''png''"
  by (simp add: photoPng_def extension_defs)

lemma extension_notesDocx: "getFileExtension (file_name notesDocx) = ''docx''"
  by (simp add: notesDocx_def extension_defs)

lemma extension_animGif: "getFileExtension (file_name animGif) = ''gif''"
  by (simp add: animGif_def extension_defs)

lemma downloadName_photoPng: "downloadName photoPng out = ''photo.'' @ out"
  by (simp add: downloadName_def photoPng_def)

lemma downloadName_notesDocx: "downloadName notesDocx out = ''notes.'' @ out"
  by (simp add: downloadName_def notesDocx_def)

lemma downloadName_animGif: "downloadName animGif out = ''anim.'' @ out"
  by (simp add: downloadName_def animGif_def)

text \<open>
  The theorem at work: a PNG and a DOCX converted to PDF, the first in the browser and
  the second by the server; and the same when the browser cannot decode the PNG.
\<close>

theorem only_png_jpg_jpeg_convert_locally_witness:
  "handleConvert workingBrowser [photoPng, notesDocx] ''pdf'' nothingConverted =
     \<lparr>convertedFiles = [(''photo.pdf'', Buffer ''pdf made in the browser''),
                        (''notes.pdf'', Buffer ''made by the server: pdf'')],
      errorShown = '''',
      calls = [ConvertImageToPdf ''photo.PNG'', FetchApiConvert ''notes.docx'' ''pdf'']\<rparr> \<and>
   handleConvert undecodableBrowser [notesDocx, photoPng, notesDocx] ''pdf'' nothingConverted =
     \<lparr>convertedFiles = [(''notes.pdf'', Buffer ''made by the server: pdf'')],
      errorShown = ''Failed to load image'',
      calls = [FetchApiConvert ''notes.docx'' ''pdf'', ConvertImageToPdf ''photo.PNG'']\<rparr>"
proof -
  note inst = only_png_jpg_jpeg_convert_locally
  have pe: "getFileExtension (file_name photoPng) \<in> set [''png'', ''jpg'', ''jpeg'']"
    by (simp add: extension_photoPng)
  have de: "getFileExtension (file_name notesDocx) \<notin> set [''png'', ''jpg'', ''jpeg'']"
    by (simp add: extension_notesDocx)
  have "convertFile (file_name photoPng) ''pdf'' =
          (if ''pdf'' = ''pdf'' then ConvertImageToPdf (file_name photoPng)
           else ConvertImageFormat (file_name photoPng) ''pdf'') \<and>
        convertedBlob workingBrowser photoPng ''pdf'' =
          (if ''pdf'' = ''pdf'' then imageToPdf_in_browser workingBrowser photoPng
           else imageFormat_in_browser workingBrowser photoPng ''pdf'')"
    using inst [of photoPng "''pdf''" workingBrowser] pe by blast
  then have p: "convertFile (file_name photoPng) ''pdf'' = ConvertImageToPdf ''photo.PNG''"
    and pb: "convertedBlob workingBrowser photoPng ''pdf'' =
               Inr (Buffer ''pdf made in the browser'')"
    by (simp_all add: workingBrowser_def photoPng_def)
  have "convertedBlob undecodableBrowser photoPng ''pdf'' =
          (if ''pdf'' = ''pdf'' then imageToPdf_in_browser undecodableBrowser photoPng
           else imageFormat_in_browser undecodableBrowser photoPng ''pdf'')"
    using inst [of photoPng "''pdf''" undecodableBrowser] pe by blast
  then have pu: "convertedBlob undecodableBrowser photoPng ''pdf'' =
                   Inl (Error ''Failed to load image'')"
    by (simp add: undecodableBrowser_def)
  have "convertFile (file_name notesDocx) ''pdf'' = FetchApiConvert (file_name notesDocx) ''pdf'' \<and>
        convertedBlob workingBrowser notesDocx ''pdf'' =
          (case fetch_api_convert workingBrowser notesDocx ''pdf'' of
             Inl e \<Rightarrow> Inl e
           | Inr response \<Rightarrow>
               if response_ok response then Inr (response_blob response)
               else Inl (Error (''Server conversion failed: '' @
                                response_statusText response)))"
    using inst [of notesDocx "''pdf''" workingBrowser] de by blast
  then have d: "convertFile (file_name notesDocx) ''pdf'' = FetchApiConvert ''notes.docx'' ''pdf''"
    and db: "convertedBlob workingBrowser notesDocx ''pdf'' =
               Inr (Buffer ''made by the server: pdf'')"
    by (simp_all add: workingBrowser_def notesDocx_def)
  have "convertedBlob undecodableBrowser notesDocx ''pdf'' =
          (case fetch_api_convert undecodableBrowser notesDocx ''pdf'' of
             Inl e \<Rightarrow> Inl e
           | Inr response \<Rightarrow>
               if response_ok response then Inr (response_blob response)
               else Inl (Error (''Server conversion failed: '' @
                                response_statusText response)))"
    using inst [of notesDocx "''pdf''" undecodableBrowser] de by blast
  then have du: "convertedBlob undecodableBrowser notesDocx ''pdf'' =
                   Inr (Buffer ''made by the server: pdf'')"
    by (simp add: undecodableBrowser_def workingBrowser_def)
  have okay: "[photoPng, notesDocx] \<noteq> [] \<and> ''pdf'' \<noteq> [] \<and>
      map (\<lambda>f. convertedBlob workingBrowser f ''pdf'') [photoPng, notesDocx] =
        map Inr [Buffer ''pdf made in the browser'', Buffer ''made by the server: pdf'']"
    by (simp add: pb db)
  have "handleConvert workingBrowser [photoPng, notesDocx] ''pdf'' nothingConverted =
        nothingConverted\<lparr>errorShown := '''',
          calls := calls nothingConverted @
                     map (\<lambda>f. convertFile (file_name f) ''pdf'') [photoPng, notesDocx],
          convertedFiles :=
            convertedFiles nothingConverted @
              zip (map (\<lambda>f. downloadName f ''pdf'') [photoPng, notesDocx])
                [Buffer ''pdf made in the browser'', Buffer ''made by the server: pdf'']\<rparr>"
    using inst [of _ "''pdf''" workingBrowser "[photoPng, notesDocx]"
        "[Buffer ''pdf made in the browser'', Buffer ''made by the server: pdf'']"
        nothingConverted] okay by blast
  then have one: "handleConvert workingBrowser [photoPng, notesDocx] ''pdf'' nothingConverted =
     \<lparr>convertedFiles = [(''photo.pdf'', Buffer ''pdf made in the browser''),
                        (''notes.pdf'', Buffer ''made by the server: pdf'')],
      errorShown = '''',
      calls = [ConvertImageToPdf ''photo.PNG'', FetchApiConvert ''notes.docx'' ''pdf'']\<rparr>"
    by (simp add: p d downloadName_photoPng downloadName_notesDocx nothingConverted_def)
  have fails: "''pdf'' \<noteq> [] \<and>
      map (\<lambda>f. convertedBlob undecodableBrowser f ''pdf'') [notesDocx] =
        map Inr [Buffer ''made by the server: pdf''] \<and>
      convertedBlob undecodableBrowser photoPng ''pdf'' = Inl (Error ''Failed to load image'')"
    by (simp add: pu du)
  have "handleConvert undecodableBrowser ([notesDocx] @ photoPng # [notesDocx]) ''pdf''
          nothingConverted =
        nothingConverted\<lparr>errorShown := message (Error ''Failed to load image''),
          calls := calls nothingConverted @
                     map (\<lambda>f. convertFile (file_name f) ''pdf'') ([notesDocx] @ [photoPng]),
          convertedFiles :=
            convertedFiles nothingConverted @
              zip (map (\<lambda>f. downloadName f ''pdf'') [notesDocx])
                [Buffer ''made by the server: pdf'']\<rparr>"
    using inst [of _ "''pdf''" undecodableBrowser _ "[Buffer ''made by the server: pdf'']"
        nothingConverted "[notesDocx]" photoPng "Error ''Failed to load image''" "[notesDocx]"]
      fails by blast
  then have two: "handleConvert undecodableBrowser [notesDocx, photoPng, notesDocx] ''pdf''
        nothingConverted =
     \<lparr>convertedFiles = [(''notes.pdf'', Buffer ''made by the server: pdf'')],
      errorShown = ''Failed to load image'',
      calls = [FetchApiConvert ''notes.docx'' ''pdf'', ConvertImageToPdf ''photo.PNG'']\<rparr>"
    by (simp add: p d downloadName_notesDocx nothingConverted_def)
  from one two show ?thesis ..
qed

text \<open>
  C8 as stated fails twice. gif is in the image family, and a gif file is sent to the
  server. And a png file, converted in the browser, yields no blob when the browser
  cannot decode it.
\<close>

theorem gif_is_sent_to_the_server:
  "js_get formatCategories ''gif'' = JsString ''image'' \<and>
   getFileExtension (file_name animGif) = ''gif'' \<and>
   handleConvert workingBrowser [animGif] ''png'' nothingConverted =
     \<lparr>convertedFiles = [(''anim.png'', Buffer ''made by the server: png'')],
      errorShown = '''',
      calls = [FetchApiConvert ''anim.gif'' ''png'']\<rparr> \<and>
   js_get formatCategories ''png'' = JsString ''image'' \<and>
   getFileExtension (file_name photoPng) = ''png'' \<and>
   handleConvert undecodableBrowser [photoPng] ''pdf'' nothingConverted =
     \<lparr>convertedFiles = [],
      errorShown = ''Failed to load image'',
      calls = [ConvertImageToPdf ''photo.PNG'']\<rparr>"
proof -
  have a: "js_get formatCategories ''gif'' = JsString ''image''"
    by (simp add: js_get_def formatCategories_def)
  have b: "js_get formatCategories ''png'' = JsString ''image''"
    by (simp add: js_get_def formatCategories_def)
  have c: "handleConvert workingBrowser [animGif] ''png'' nothingConverted =
     \<lparr>convertedFiles = [(''anim.png'', Buffer ''made by the server: png'')],
      errorShown = '''',
      calls = [FetchApiConvert ''anim.gif'' ''png'']\<rparr>"
    by (simp add: handleConvert_def convertedBlob_def convertFile_def extension_animGif
          downloadName_animGif workingBrowser_def nothingConverted_def Let_def)
      (simp add: animGif_def)
  have d: "handleConvert undecodableBrowser [photoPng] ''pdf'' nothingConverted =
     \<lparr>convertedFiles = [],
      errorShown = ''Failed to load image'',
      calls = [ConvertImageToPdf ''photo.PNG'']\<rparr>"
    by (simp add: handleConvert_def convertedBlob_def convertFile_def extension_photoPng
          undecodableBrowser_def workingBrowser_def nothingConverted_def Let_def)
      (simp add: photoPng_def)
  from a b c d extension_animGif extension_photoPng show ?thesis by (intro conjI)
qed

end
